theory Spec2Isabelle
  imports Main "HOL-Library.Word"
begin

unbundle bit_operations_syntax

section \<open>Machine words\<close>

type_synonym u8 = "8 word"
type_synonym u32 = "32 word"
type_synonym u64 = "64 word"

text \<open>
  \<^verbatim>\<open>rotl\<close> of utils.hpp at \<^verbatim>\<open>uint32_t\<close>:
  \<^verbatim>\<open>return (x << k) | (x >> (32 - k));\<close>
\<close>

definition rotl :: "u32 \<Rightarrow> nat \<Rightarrow> u32" where
  "rotl x k = push_bit k x OR drop_bit (32 - k) x"

section \<open>The ChaCha20 engine (csprng.hpp)\<close>

text \<open>
  \<^verbatim>\<open>class ChaCha20 : public IEngine<uint32_t, 16>\<close>: the only data member is
  \<^verbatim>\<open>std::array<uint32_t, 16> m_state\<close>, a list of sixteen 32-bit words here.
\<close>

type_synonym chacha_state = "u32 list"

definition STATE_SIZE :: nat where
  "STATE_SIZE = 16"

definition EXPAND_32_BYTE_K :: "u32 list" where
  "EXPAND_32_BYTE_K = [0x61707865, 0x3320646e, 0x79622d32, 0x6b206574]"

text \<open>
  \<^verbatim>\<open>quarter_round(uint32_t* a, uint32_t* b, uint32_t* c, uint32_t* d)\<close>: twelve
  statements on the four words pointed to, in the order of the source.
\<close>

definition quarter_round :: "u32 \<times> u32 \<times> u32 \<times> u32 \<Rightarrow> u32 \<times> u32 \<times> u32 \<times> u32" where
  "quarter_round q =
    (case q of (a, b, c, d) \<Rightarrow>
      let a = a + b; d = d XOR a; d = rotl d 16;
          c = c + d; b = b XOR c; b = rotl b 12;
          a = a + b; d = d XOR a; d = rotl d 8;
          c = c + d; b = b XOR c; b = rotl b 7
      in (a, b, c, d))"

text \<open>
  A call \<^verbatim>\<open>quarter_round(&ws[i], &ws[j], &ws[k], &ws[l])\<close>; the four indices of
  every call in \<^verbatim>\<open>round\<close> are distinct, so the four pointers never alias.
\<close>

definition quarter_round_at :: "nat \<Rightarrow> nat \<Rightarrow> nat \<Rightarrow> nat \<Rightarrow> chacha_state \<Rightarrow> chacha_state" where
  "quarter_round_at i j k l ws =
    (case quarter_round (ws ! i, ws ! j, ws ! k, ws ! l) of
      (a, b, c, d) \<Rightarrow> ws[i := a, j := b, k := c, l := d])"

definition round :: "chacha_state \<Rightarrow> chacha_state" where
  "round working_state =
    (let ws = quarter_round_at 0 4 8 12 working_state;
         ws = quarter_round_at 1 5 9 13 ws;
         ws = quarter_round_at 2 6 10 14 ws;
         ws = quarter_round_at 3 7 11 15 ws;
         ws = quarter_round_at 0 5 10 15 ws;
         ws = quarter_round_at 1 6 11 12 ws;
         ws = quarter_round_at 2 7 8 13 ws;
         ws = quarter_round_at 3 4 9 14 ws
     in ws)"

text \<open>The loop \<^verbatim>\<open>for (int i = 0; i < 10; ++i) round(working_state);\<close>, by the
  number of iterations left.\<close>

fun rounds :: "nat \<Rightarrow> chacha_state \<Rightarrow> chacha_state" where
  "rounds 0 ws = ws"
| "rounds (Suc n) ws = rounds n (round ws)"

text \<open>The loop \<^verbatim>\<open>for (auto i = 0; i < STATE_SIZE; ++i) working_state[i] += m_state[i];\<close>\<close>

definition add_state :: "chacha_state \<Rightarrow> chacha_state \<Rightarrow> chacha_state" where
  "add_state m_state working_state =
    fold (\<lambda>i ws. ws[i := ws ! i + m_state ! i]) [0..<STATE_SIZE] working_state"

text \<open>
  \<^verbatim>\<open>block()\<close> returns the output block and leaves the engine with its counter
  advanced: the result is the pair (returned block, new \<^verbatim>\<open>m_state\<close>).
\<close>

definition block :: "chacha_state \<Rightarrow> chacha_state \<times> chacha_state" where
  "block m_state =
    (let working_state = m_state;
         working_state = rounds 10 working_state;
         working_state = add_state m_state working_state;
         m_state = m_state[12 := m_state ! 12 + 1];
         m_state = (if m_state ! 12 = 0 then m_state[13 := m_state ! 13 + 1] else m_state)
     in (working_state, m_state))"

text \<open>
  \<^verbatim>\<open>next()\<close>: the loop
  \<^verbatim>\<open>for (size_t i = 0; i < 16; i += 2) combined ^= (static_cast<uint64_t>(result[i]) << 32) | result[i + 1];\<close>
\<close>

function next_loop :: "nat \<Rightarrow> u32 list \<Rightarrow> u64 \<Rightarrow> u64" where
  "next_loop i result combined =
    (if i < 16
     then next_loop (i + 2) result
            (combined XOR (push_bit 32 (ucast (result ! i)) OR ucast (result ! (i + 1))))
     else combined)"
  by pat_completeness auto
termination
  by (relation "measure (\<lambda>(i, result, combined). 16 - i)") auto

declare next_loop.simps [simp del]

definition ChaCha20_next :: "chacha_state \<Rightarrow> u64 \<times> chacha_state" where
  "ChaCha20_next m_state =
    (case block m_state of (result, m_state) \<Rightarrow> (next_loop 0 result 0, m_state))"

definition ChaCha20_next512 :: "chacha_state \<Rightarrow> chacha_state \<times> chacha_state" where
  "ChaCha20_next512 m_state = block m_state"

subsection \<open>Construction\<close>

text \<open>
  The external entropy source \<^verbatim>\<open>std::random_device\<close>: \<^verbatim>\<open>rd()\<close> hands out the next
  32-bit value. The model is the sequence of values the device will produce together with
  the number of calls made so far.
\<close>

record random_device =
  entropy :: "nat \<Rightarrow> u32"
  calls :: nat

definition rd_call :: "random_device \<Rightarrow> u32 \<times> random_device" where
  "rd_call rd = (entropy rd (calls rd), rd\<lparr>calls := calls rd + 1\<rparr>)"

text \<open>
  \<^verbatim>\<open>explicit ChaCha20(std::random_device& rd) : IEngine({})\<close>. The base class
  value-initialises the array, so the state starts as sixteen zero words.
\<close>

definition ChaCha20_from_rd :: "random_device \<Rightarrow> chacha_state \<times> random_device" where
  "ChaCha20_from_rd rd =
    (let m_state = replicate 16 0;
         m_state = fold (\<lambda>i st. st[i := EXPAND_32_BYTE_K ! i]) [0..<4] m_state;
         (m_state, rd) =
           fold (\<lambda>i (st, rd).
                  let (r, rd) = rd_call rd; st = st[4 + i * 2 := r];
                      (r, rd) = rd_call rd; st = st[5 + i * 2 := r]
                  in (st, rd))
                [0..<2] (m_state, rd);
         m_state = m_state[12 := 0];
         m_state = m_state[13 := 0];
         (r, rd) = rd_call rd; m_state = m_state[14 := r];
         (r, rd) = rd_call rd; m_state = m_state[15 := r]
     in (m_state, rd))"


text \<open>\<^verbatim>\<open>ChaCha20(const std::array<uint32_t, 8>& key, const std::array<uint32_t, 2>& nonce)\<close>\<close>

definition ChaCha20_from_key :: "u32 list \<Rightarrow> u32 list \<Rightarrow> chacha_state" where
  "ChaCha20_from_key key nonce =
    (let m_state = replicate 16 0;
         m_state = fold (\<lambda>i st. st[i := EXPAND_32_BYTE_K ! i]) [0..<4] m_state;
         m_state = fold (\<lambda>i st. st[4 + i := key ! i]) [0..<8] m_state;
         m_state = m_state[12 := 0];
         m_state = m_state[13 := 0];
         m_state = m_state[14 := nonce ! 0];
         m_state = m_state[15 := nonce ! 1]
     in m_state)"

text \<open>A caller's sequence of steps on one engine; the state after the last of them.\<close>

datatype chacha_call = Next | Next512

fun chacha_run :: "chacha_call list \<Rightarrow> chacha_state \<Rightarrow> chacha_state" where
  "chacha_run [] s = s"
| "chacha_run (Next # cs) s = chacha_run cs (snd (ChaCha20_next s))"
| "chacha_run (Next512 # cs) s = chacha_run cs (snd (ChaCha20_next512 s))"

subsection \<open>The block function in the words of the specification\<close>

text \<open>
  One mixing step is one addition, one XOR and one left rotation. \<open>AD k\<close> is
  \<open>a += b; d ^= a; d <<<= k\<close> and \<open>CB k\<close> is \<open>c += d; b ^= c; b <<<= k\<close>;
  a quarter round is a list of steps, so the number of additions, XORs and rotations
  it makes is the length of the list.
\<close>

datatype arx_step = AD nat | CB nat

fun arx :: "arx_step \<Rightarrow> u32 \<times> u32 \<times> u32 \<times> u32 \<Rightarrow> u32 \<times> u32 \<times> u32 \<times> u32" where
  "arx (AD k) (a, b, c, d) = (a + b, b, c, word_rotl k (d XOR (a + b)))"
| "arx (CB k) (a, b, c, d) = (a, word_rotl k (b XOR (c + d)), c + d, d)"

definition mixing :: "arx_step list \<Rightarrow> u32 \<times> u32 \<times> u32 \<times> u32 \<Rightarrow> u32 \<times> u32 \<times> u32 \<times> u32" where
  "mixing steps q = fold arx steps q"

definition columns :: "(nat \<times> nat \<times> nat \<times> nat) list" where
  "columns = [(0, 4, 8, 12), (1, 5, 9, 13), (2, 6, 10, 14), (3, 7, 11, 15)]"

definition diagonals :: "(nat \<times> nat \<times> nat \<times> nat) list" where
  "diagonals = [(0, 5, 10, 15), (1, 6, 11, 12), (2, 7, 8, 13), (3, 4, 9, 14)]"

definition mix_quadruple ::
  "arx_step list \<Rightarrow> nat \<times> nat \<times> nat \<times> nat \<Rightarrow> chacha_state \<Rightarrow> chacha_state" where
  "mix_quadruple steps ix ws =
    (case ix of (i, j, k, l) \<Rightarrow>
      (case mixing steps (ws ! i, ws ! j, ws ! k, ws ! l) of
        (a, b, c, d) \<Rightarrow> ws[i := a, j := b, k := c, l := d]))"

definition double_round :: "arx_step list \<Rightarrow> chacha_state \<Rightarrow> chacha_state" where
  "double_round steps ws =
    fold (mix_quadruple steps) diagonals (fold (mix_quadruple steps) columns ws)"

text \<open>The 64-bit counter held in words 12 and 13, word 12 the low half.\<close>

definition counter64 :: "chacha_state \<Rightarrow> u64" where
  "counter64 s = push_bit 32 (ucast (s ! 13)) OR ucast (s ! 12)"

text \<open>
  The block function as the specification words it: ten double rounds on a copy of the
  state, the pre-round state added word by word, and the counter advanced with the carry
  from word 12 into word 13.
\<close>

definition block_spec :: "arx_step list \<Rightarrow> chacha_state \<Rightarrow> chacha_state \<times> chacha_state" where
  "block_spec steps s =
    (map2 (+) ((double_round steps ^^ 10) s) s,
     s[12 := s ! 12 + 1, 13 := (if s ! 12 + 1 = 0 then s ! 13 + 1 else s ! 13)])"

text \<open>
  The fold rule of \<^verbatim>\<open>next()\<close> as the specification words it: each adjacent pair of
  words concatenated (high word << 32 | low word), the eight values XORed together.
\<close>

definition concat64 :: "u32 \<Rightarrow> u32 \<Rightarrow> u64" where
  "concat64 hi lo = push_bit 32 (ucast hi) OR ucast lo"

definition fold_pairs :: "u32 list \<Rightarrow> u64" where
  "fold_pairs r = foldr (XOR) (map (\<lambda>k. concat64 (r ! (2 * k)) (r ! (2 * k + 1))) [0..<8]) 0"

text \<open>
  The keystream block for the all-zero key, nonce and counter, as 32-bit little-endian
  words: RFC 8439, appendix A.1, test vector 1 (bytes \<^verbatim>\<open>76 b8 e0 ad a0 f1 3d 90 ...\<close>).
\<close>

definition rfc8439_zero_block :: "u32 list" where
  "rfc8439_zero_block =
    [0xade0b876, 0x903df1a0, 0xe56a5d40, 0x28bd8653,
     0xb819d2bd, 0x1aed8da0, 0xccef36a8, 0xc70d778b,
     0x7c5941da, 0x8d485751, 0x3fe02477, 0x374ad8b8,
     0xf4b8436a, 0x1ca11815, 0x69b687c3, 0x8665eeb2]"

section \<open>The AES counter engine (csprng.hpp)\<close>

subsection \<open>What the C++ leaves to the platform\<close>

text \<open>
  Two things in \<^verbatim>\<open>AESCTR\<close> are not fixed by the language and are parameters of the
  model:
  \<^item> \<^verbatim>\<open>reinterpret_cast<uint32_t*>\<close> on the byte arrays (in \<^verbatim>\<open>key_expansion\<close> and
    \<^verbatim>\<open>increment_counter\<close>) and the \<^verbatim>\<open>memcpy\<close> of \<^verbatim>\<open>next128\<close> read and write
    integers in the byte order of the host;
  \<^item> \<^verbatim>\<open>0x01 << ((i / Nk - 1) * 8)\<close> shifts an \<^verbatim>\<open>int\<close> by 32 and more from the
    fifth round key on, which has no defined result: \<open>shl_overflow\<close> is the value
    the compiled code produces at such a shift count.
\<close>

datatype endian = Little | Big

record host =
  byte_order :: endian
  shl_overflow :: "nat \<Rightarrow> u32"

text \<open>The four bytes of a 32-bit integer in memory order, and back.\<close>

definition u32_bytes :: "host \<Rightarrow> u32 \<Rightarrow> u8 list" where
  "u32_bytes h w =
    (case byte_order h of
       Little \<Rightarrow> [ucast w, ucast (drop_bit 8 w), ucast (drop_bit 16 w), ucast (drop_bit 24 w)]
     | Big \<Rightarrow> [ucast (drop_bit 24 w), ucast (drop_bit 16 w), ucast (drop_bit 8 w), ucast w])"

definition bytes_u32 :: "host \<Rightarrow> u8 \<Rightarrow> u8 \<Rightarrow> u8 \<Rightarrow> u8 \<Rightarrow> u32" where
  "bytes_u32 h b0 b1 b2 b3 =
    (case byte_order h of
       Little \<Rightarrow> ucast b0 OR push_bit 8 (ucast b1) OR push_bit 16 (ucast b2) OR push_bit 24 (ucast b3)
     | Big \<Rightarrow> ucast b3 OR push_bit 8 (ucast b2) OR push_bit 16 (ucast b1) OR push_bit 24 (ucast b0))"

text \<open>\<^verbatim>\<open>*reinterpret_cast<uint32_t*>(&a[off])\<close> as an rvalue and as the target of an
  assignment.\<close>

definition load32 :: "host \<Rightarrow> u8 list \<Rightarrow> nat \<Rightarrow> u32" where
  "load32 h a off = bytes_u32 h (a ! off) (a ! (off + 1)) (a ! (off + 2)) (a ! (off + 3))"

definition store32 :: "host \<Rightarrow> u8 list \<Rightarrow> nat \<Rightarrow> u32 \<Rightarrow> u8 list" where
  "store32 h a off w =
    (case u32_bytes h w of
       [b0, b1, b2, b3] \<Rightarrow> a[off := b0, off + 1 := b1, off + 2 := b2, off + 3 := b3]
     | _ \<Rightarrow> a)"

text \<open>Eight bytes assembled little-endian: byte \<open>i\<close> shifted left by \<open>8 i\<close> bits.\<close>

definition le64 :: "u8 list \<Rightarrow> u64" where
  "le64 bs = fold (\<lambda>i acc. acc OR push_bit (i * 8) (ucast (bs ! i))) [0..<8] 0"

text \<open>Eight bytes at \<open>off\<close> copied into a \<^verbatim>\<open>uint64_t\<close>, as the \<^verbatim>\<open>memcpy\<close> of
  \<^verbatim>\<open>next128\<close> does.\<close>

definition load64 :: "host \<Rightarrow> u8 list \<Rightarrow> nat \<Rightarrow> u64" where
  "load64 h a off =
    (case byte_order h of
       Little \<Rightarrow> le64 (take 8 (drop off a))
     | Big \<Rightarrow> le64 (rev (take 8 (drop off a))))"

text \<open>\<^verbatim>\<open>0x01 << n\<close> on \<^verbatim>\<open>int\<close>, converted to \<^verbatim>\<open>uint32_t\<close> by the \<^verbatim>\<open>^=\<close>.\<close>

definition shl_1 :: "host \<Rightarrow> nat \<Rightarrow> u32" where
  "shl_1 h n = (if n < 32 then push_bit n 1 else shl_overflow h n)"

subsection \<open>The engine\<close>

text \<open>
  \<^verbatim>\<open>class AESCTR : public IEngine<uint8_t, 16>\<close>: the 16-byte \<^verbatim>\<open>m_state\<close> of the base
  class, used as the counter, and \<^verbatim>\<open>std::array<uint8_t, 176> m_expanded_key\<close>.
\<close>

record AESCTR =
  m_state :: "u8 list"
  m_expanded_key :: "u8 list"

definition Nb :: nat where "Nb = 4"
definition Nk :: nat where "Nk = 4"
definition Nr :: nat where "Nr = 10"

definition SBOX :: "u8 list" where
  "SBOX =
    [0x63, 0x7c, 0x77, 0x7b, 0xf2, 0x6b, 0x6f, 0xc5, 0x30, 0x01, 0x67, 0x2b, 0xfe, 0xd7, 0xab, 0x76,
     0xca, 0x82, 0xc9, 0x7d, 0xfa, 0x59, 0x47, 0xf0, 0xad, 0xd4, 0xa2, 0xaf, 0x9c, 0xa4, 0x72, 0xc0,
     0xb7, 0xfd, 0x93, 0x26, 0x36, 0x3f, 0xf7, 0xcc, 0x34, 0xa5, 0xe5, 0xf1, 0x71, 0xd8, 0x31, 0x15,
     0x04, 0xc7, 0x23, 0xc3, 0x18, 0x96, 0x05, 0x9a, 0x07, 0x12, 0x80, 0xe2, 0xeb, 0x27, 0xb2, 0x75,
     0x09, 0x83, 0x2c, 0x1a, 0x1b, 0x6e, 0x5a, 0xa0, 0x52, 0x3b, 0xd6, 0xb3, 0x29, 0xe3, 0x2f, 0x84,
     0x53, 0xd1, 0x00, 0xed, 0x20, 0xfc, 0xb1, 0x5b, 0x6a, 0xcb, 0xbe, 0x39, 0x4a, 0x4c, 0x58, 0xcf,
     0xd0, 0xef, 0xaa, 0xfb, 0x43, 0x4d, 0x33, 0x85, 0x45, 0xf9, 0x02, 0x7f, 0x50, 0x3c, 0x9f, 0xa8,
     0x51, 0xa3, 0x40, 0x8f, 0x92, 0x9d, 0x38, 0xf5, 0xbc, 0xb6, 0xda, 0x21, 0x10, 0xff, 0xf3, 0xd2,
     0xcd, 0x0c, 0x13, 0xec, 0x5f, 0x97, 0x44, 0x17, 0xc4, 0xa7, 0x7e, 0x3d, 0x64, 0x5d, 0x19, 0x73,
     0x60, 0x81, 0x4f, 0xdc, 0x22, 0x2a, 0x90, 0x88, 0x46, 0xee, 0xb8, 0x14, 0xde, 0x5e, 0x0b, 0xdb,
     0xe0, 0x32, 0x3a, 0x0a, 0x49, 0x06, 0x24, 0x5c, 0xc2, 0xd3, 0xac, 0x62, 0x91, 0x95, 0xe4, 0x79,
     0xe7, 0xc8, 0x37, 0x6d, 0x8d, 0xd5, 0x4e, 0xa9, 0x6c, 0x56, 0xf4, 0xea, 0x65, 0x7a, 0xae, 0x08,
     0xba, 0x78, 0x25, 0x2e, 0x1c, 0xa6, 0xb4, 0xc6, 0xe8, 0xdd, 0x74, 0x1f, 0x4b, 0xbd, 0x8b, 0x8a,
     0x70, 0x3e, 0xb5, 0x66, 0x48, 0x03, 0xf6, 0x0e, 0x61, 0x35, 0x57, 0xb9, 0x86, 0xc1, 0x1d, 0x9e,
     0xe1, 0xf8, 0x98, 0x11, 0x69, 0xd9, 0x8e, 0x94, 0x9b, 0x1e, 0x87, 0xe9, 0xce, 0x55, 0x28, 0xdf,
     0x8c, 0xa1, 0x89, 0x0d, 0xbf, 0xe6, 0x42, 0x68, 0x41, 0x99, 0x2d, 0x0f, 0xb0, 0x54, 0xbb, 0x16]"

text \<open>\<^verbatim>\<open>SBOX[b]\<close> for a byte \<open>b\<close>.\<close>

definition sbox :: "u8 \<Rightarrow> u8" where
  "sbox b = SBOX ! unat b"

text \<open>
  In \<^verbatim>\<open>key_expansion\<close>: \<^verbatim>\<open>temp_bytes\<close> points at the four bytes of \<^verbatim>\<open>temp\<close>, and
  \<^verbatim>\<open>for (int j = 0; j < 4; ++j) temp_bytes[j] = SBOX[temp_bytes[j]];\<close>
\<close>

definition sub_temp_bytes :: "host \<Rightarrow> u32 \<Rightarrow> u32" where
  "sub_temp_bytes h temp =
    (case map sbox (u32_bytes h temp) of
       [b0, b1, b2, b3] \<Rightarrow> bytes_u32 h b0 b1 b2 b3
     | _ \<Rightarrow> temp)"

text \<open>One iteration of the loop of \<^verbatim>\<open>key_expansion\<close>, at index \<open>i\<close>.\<close>

definition key_expansion_step :: "host \<Rightarrow> nat \<Rightarrow> u8 list \<Rightarrow> u8 list" where
  "key_expansion_step h i ek =
    (let temp = load32 h ek (4 * (i - 1));
         temp = (if i mod Nk = 0
                 then let temp = push_bit 8 temp OR drop_bit 24 temp;
                          temp = sub_temp_bytes h temp
                      in temp XOR shl_1 h ((i div Nk - 1) * 8)
                 else temp)
     in store32 h ek (4 * i) (load32 h ek (4 * (i - Nk)) XOR temp))"

text \<open>
  \<^verbatim>\<open>key_expansion(key)\<close>: \<^verbatim>\<open>std::copy\<close> of the 16 key bytes to the start of
  \<^verbatim>\<open>m_expanded_key\<close>, then \<^verbatim>\<open>for (size_t i = Nk; i < Nb * (Nr + 1); ++i)\<close>.
\<close>

definition key_expansion :: "host \<Rightarrow> u8 list \<Rightarrow> AESCTR \<Rightarrow> AESCTR" where
  "key_expansion h key e =
    (let ek = key @ drop 16 (m_expanded_key e);
         ek = fold (key_expansion_step h) [Nk..<Nb * (Nr + 1)] ek
     in e\<lparr>m_expanded_key := ek\<rparr>)"

text \<open>\<^verbatim>\<open>increment_counter()\<close>: \<^verbatim>\<open>counter\<close> views \<^verbatim>\<open>m_state\<close> as four 32-bit words.\<close>

definition increment_counter :: "host \<Rightarrow> AESCTR \<Rightarrow> AESCTR" where
  "increment_counter h e =
    (let st = m_state e;
         c3 = load32 h st 12 + 1; st = store32 h st 12 c3
     in if c3 = 0
        then let c2 = load32 h st 8 + 1; st = store32 h st 8 c2
             in if c2 = 0
                then let c1 = load32 h st 4 + 1; st = store32 h st 4 c1
                     in if c1 = 0
                        then let c0 = load32 h st 0 + 1; st = store32 h st 0 c0
                             in e\<lparr>m_state := st\<rparr>
                        else e\<lparr>m_state := st\<rparr>
                else e\<lparr>m_state := st\<rparr>
        else e\<lparr>m_state := st\<rparr>)"

text \<open>
  \<^verbatim>\<open>process_block(std::array<uint8_t, 16>& state)\<close>: the parameter \<^verbatim>\<open>state\<close> is the
  caller's buffer, transformed in place; the result is the pair (buffer, engine).
\<close>

definition process_block :: "host \<Rightarrow> u8 list \<Rightarrow> AESCTR \<Rightarrow> u8 list \<times> AESCTR" where
  "process_block h state e =
    (let state = fold (\<lambda>i st. st[i := st ! i XOR m_expanded_key e ! i]) [0..<16] state;
         state = map sbox state;
         temp = state;
         state = state[1 := temp ! 5];
         state = state[5 := temp ! 9];
         state = state[9 := temp ! 13];
         state = state[13 := temp ! 1];
         state = state[2 := temp ! 10];
         state = state[6 := temp ! 14];
         state = state[10 := temp ! 2];
         state = state[14 := temp ! 6];
         state = state[3 := temp ! 15];
         state = state[7 := temp ! 3];
         state = state[11 := temp ! 7];
         state = state[15 := temp ! 11];
         state = fold (\<lambda>i st. st[i := st ! i XOR m_expanded_key e ! (16 + i)]) [0..<16] state
     in (state, increment_counter h e))"

text \<open>
  \<^verbatim>\<open>next()\<close> and \<^verbatim>\<open>next128()\<close> declare \<^verbatim>\<open>std::array<uint8_t, 16> buffer;\<close> without
  an initialiser and pass it to \<^verbatim>\<open>process_block\<close>. What the 16 bytes hold at that
  point is not determined by the program; it is the argument \<open>buffer\<close> here.
\<close>

definition AESCTR_next :: "host \<Rightarrow> u8 list \<Rightarrow> AESCTR \<Rightarrow> u64 \<times> AESCTR" where
  "AESCTR_next h buffer e =
    (case process_block h buffer e of
       (buffer, e) \<Rightarrow>
         (case fold (\<lambda>i (high, low).
                       (high OR push_bit (i * 8) (ucast (buffer ! i)),
                        low OR push_bit (i * 8) (ucast (buffer ! (i + 8)))))
                    [0..<8] (0 :: u64, 0 :: u64) of
            (high, low) \<Rightarrow> (high XOR low, e)))"

definition AESCTR_next128 :: "host \<Rightarrow> u8 list \<Rightarrow> AESCTR \<Rightarrow> u64 list \<times> AESCTR" where
  "AESCTR_next128 h buffer e =
    (case process_block h buffer e of
       (buffer, e) \<Rightarrow> ([load64 h buffer 0, load64 h buffer 8], e))"

text \<open>
  \<^verbatim>\<open>AESCTR(const std::array<uint8_t, 16>& key, const std::array<uint8_t, 16>& nonce)\<close>.
  \<^verbatim>\<open>m_expanded_key\<close> has no initialiser; \<open>ek0\<close> is what it holds before
  \<^verbatim>\<open>key_expansion\<close> overwrites it.
\<close>

definition AESCTR_from_key :: "host \<Rightarrow> u8 list \<Rightarrow> u8 list \<Rightarrow> u8 list \<Rightarrow> AESCTR" where
  "AESCTR_from_key h ek0 key nonce =
    (let m_state = replicate 16 0;
         m_state = nonce @ drop 16 m_state
     in key_expansion h key \<lparr>m_state = m_state, m_expanded_key = ek0\<rparr>)"

text \<open>A caller's sequence of steps on one engine, each with the content of its
  uninitialised buffer; the engine after the last of them.\<close>

datatype aes_call = Next_aes "u8 list" | Next128_aes "u8 list" | Process_block "u8 list"

fun aes_run :: "host \<Rightarrow> aes_call list \<Rightarrow> AESCTR \<Rightarrow> AESCTR" where
  "aes_run h [] e = e"
| "aes_run h (Next_aes buffer # cs) e = aes_run h cs (snd (AESCTR_next h buffer e))"
| "aes_run h (Next128_aes buffer # cs) e = aes_run h cs (snd (AESCTR_next128 h buffer e))"
| "aes_run h (Process_block buffer # cs) e = aes_run h cs (snd (process_block h buffer e))"

subsection \<open>The key schedule and the block transform in the words of the specification\<close>

text \<open>The \<open>i\<close>-th 4-byte word of a key schedule.\<close>

definition schedule_word :: "host \<Rightarrow> u8 list \<Rightarrow> nat \<Rightarrow> u32" where
  "schedule_word h ek i = load32 h ek (4 * i)"

text \<open>
  The round constant of word \<open>i\<close>, a multiple of four: \<^verbatim>\<open>0x01\<close> shifted left by one
  more byte for each round key, that is \<^verbatim>\<open>0x00000001\<close>, \<^verbatim>\<open>0x00000100\<close>,
  \<^verbatim>\<open>0x00010000\<close> and \<^verbatim>\<open>0x01000000\<close> at words 4, 8, 12 and 16. From word 20 on the
  shift count is 32 and more, and the constant is what the host makes of that shift.
\<close>

definition round_constant :: "host \<Rightarrow> nat \<Rightarrow> u32" where
  "round_constant h i =
    (if i div 4 \<le> 4 then 2 ^ (8 * (i div 4 - 1)) else shl_overflow h (8 * (i div 4 - 1)))"

text \<open>\<open>t\<close> is \<open>w\<close> with each of its four bytes substituted through the 256-entry
  table.\<close>

definition table_substituted :: "host \<Rightarrow> u32 \<Rightarrow> u32 \<Rightarrow> bool" where
  "table_substituted h w t \<longleftrightarrow> u32_bytes h t = map (\<lambda>b. SBOX ! unat b) (u32_bytes h w)"

text \<open>
  The recurrence at word \<open>i\<close>: the word is the XOR of the word 4 positions back with the
  previous word, or, when \<open>i\<close> is a multiple of four, with the transform of the previous
  word: rotated left by 8 bits, each byte substituted through the table, and XORed with
  the round constant. (For the fourth words this is stated on the word with the word 4
  positions back and the round constant XORed off again.)
\<close>

definition schedule_recurrence :: "host \<Rightarrow> u8 list \<Rightarrow> nat \<Rightarrow> bool" where
  "schedule_recurrence h ek i \<longleftrightarrow>
    (if i mod 4 = 0
     then table_substituted h (word_rotl 8 (schedule_word h ek (i - 1)))
            (schedule_word h ek i XOR schedule_word h ek (i - 4) XOR round_constant h i)
     else schedule_word h ek i = schedule_word h ek (i - 4) XOR schedule_word h ek (i - 1))"

text \<open>
  The four steps of the block transform: add round key, substitute bytes, shift rows
  (byte \<open>i\<close> of the result is byte \<open>shift_rows_index ! i\<close> of the input), add round
  key.
\<close>

definition add_round_key :: "u8 list \<Rightarrow> u8 list \<Rightarrow> u8 list" where
  "add_round_key rk st = map2 (XOR) st rk"

definition sub_bytes :: "u8 list \<Rightarrow> u8 list" where
  "sub_bytes st = map sbox st"

definition shift_rows_index :: "nat list" where
  "shift_rows_index = [0, 5, 10, 15, 4, 9, 14, 3, 8, 13, 2, 7, 12, 1, 6, 11]"

definition shift_rows :: "u8 list \<Rightarrow> u8 list" where
  "shift_rows st = map ((!) st) shift_rows_index"

definition block_transform :: "u8 list \<Rightarrow> u8 list \<Rightarrow> u8 list" where
  "block_transform ek input =
    add_round_key (take 16 (drop 16 ek))
      (shift_rows (sub_bytes (add_round_key (take 16 ek) input)))"

text \<open>A little-endian host whose shift instruction takes the count modulo 32.\<close>

definition x86_64 :: host where
  "x86_64 = \<lparr>byte_order = Little, shl_overflow = (\<lambda>n. push_bit (n mod 32) 1)\<rparr>"

text \<open>The engine \<^verbatim>\<open>AESCTR(key, nonce)\<close> for the all-zero key and nonce on that host, its
  \<^verbatim>\<open>m_expanded_key\<close> holding zero bytes before the constructor runs.\<close>

definition aes_zero :: AESCTR where
  "aes_zero = AESCTR_from_key x86_64 (replicate 176 0) (replicate 16 0) (replicate 16 0)"

text \<open>The engine \<^verbatim>\<open>AESCTR(key, nonce)\<close> on that host for the key \<^verbatim>\<open>00 01 02 ... 0f\<close>
  and the all-zero nonce.\<close>

definition aes_seq :: AESCTR where
  "aes_seq =
    AESCTR_from_key x86_64 (replicate 176 0)
      [0, 1, 2, 3, 4, 5, 6, 7, 8, 9, 10, 11, 12, 13, 14, 15] (replicate 16 0)"

section \<open>Properties\<close>

subsection \<open>Index ranges and fixed-size arrays\<close>

lemma upt_0_2: "[0..<2] = [0, 1]"
  by (simp add: upt_rec)

lemma upt_0_4: "[0..<4] = [0, 1, 2, 3]"
  by (simp add: upt_rec)

lemma upt_0_8: "[0..<8] = [0, 1, 2, 3, 4, 5, 6, 7]"
  by (simp add: upt_rec)

lemma upt_0_16: "[0..<16] = [0, 1, 2, 3, 4, 5, 6, 7, 8, 9, 10, 11, 12, 13, 14, 15]"
  by (simp add: upt_rec)

lemma replicate_8: "replicate 8 x = [x, x, x, x, x, x, x, x]"
  by (simp add: eval_nat_numeral)

lemma replicate_16: "replicate 16 x = [x, x, x, x, x, x, x, x, x, x, x, x, x, x, x, x]"
  by (simp add: eval_nat_numeral)

lemma length_2_explicit: "length xs = 2 \<Longrightarrow> \<exists>a b. xs = [a, b]"
  by (auto simp add: length_Suc_conv eval_nat_numeral)

lemma length_8_explicit:
  "length xs = 8 \<Longrightarrow> \<exists>a b c d e f g h. xs = [a, b, c, d, e, f, g, h]"
  by (auto simp add: length_Suc_conv eval_nat_numeral)

lemma length_16_explicit:
  "length xs = 16 \<Longrightarrow>
   \<exists>x0 x1 x2 x3 x4 x5 x6 x7 x8 x9 x10 x11 x12 x13 x14 x15.
     xs = [x0, x1, x2, x3, x4, x5, x6, x7, x8, x9, x10, x11, x12, x13, x14, x15]"
  by (auto simp add: length_Suc_conv eval_nat_numeral)

subsection \<open>Rotation\<close>

text \<open>For the shift counts the engine uses, \<^verbatim>\<open>rotl\<close> is the left rotation of the word
  library.\<close>

lemma rotl_word_rotl:
  assumes "k < 32"
  shows "rotl x k = word_rotl k x"
  unfolding rotl_def
proof (rule bit_word_eqI)
  fix n assume n: "n < LENGTH(32)"
  have high: "\<not> bit x m" if "32 \<le> m" for m
    using that by (auto dest: bit_imp_le_length)
  show "bit (push_bit k x OR drop_bit (32 - k) x) n = bit (word_rotl k x) n"
  proof (cases "k \<le> n")
    case True
    with assms n have 1: "(n + 32 - k) mod 32 = n - k"
      by (simp add: mod_if)
    from True assms have 2: "32 \<le> 32 + n - k" by simp
    from True n assms show ?thesis
      by (simp add: bit_simps 1 high [OF 2])
  next
    case False
    with assms n have 1: "(n + 32 - k) mod 32 = n + 32 - k"
      by simp
    have 2: "32 + n - k = n + 32 - k" by simp
    from False n assms show ?thesis
      by (simp add: bit_simps 1 2)
  qed
qed

text \<open>Evaluation of \<^verbatim>\<open>rotl\<close> on literals, with the result reduced to 32 bits.\<close>

lemma rotl_numeral:
  "rotl (numeral n) k =
    word_of_nat (unat (push_bit k (numeral n :: u32) OR drop_bit (32 - k) (numeral n)))"
  by (simp add: rotl_def del: unsigned_numeral)

lemma rotl_0: "rotl 0 k = 0"
  by (simp add: rotl_def)

lemma rotl_1:
  "rotl 1 k = word_of_nat (unat (push_bit k (1 :: u32) OR drop_bit (32 - k) 1))"
  by (simp add: rotl_def del: unsigned_numeral)

subsection \<open>ChaCha20: construction\<close>

lemma ChaCha20_from_rd_eq:
  "ChaCha20_from_rd rd =
    (EXPAND_32_BYTE_K @
       [entropy rd (calls rd), entropy rd (calls rd + 1),
        entropy rd (calls rd + 2), entropy rd (calls rd + 3),
        0, 0, 0, 0, 0, 0,
        entropy rd (calls rd + 4), entropy rd (calls rd + 5)],
     rd\<lparr>calls := calls rd + 6\<rparr>)"
  by (simp add: ChaCha20_from_rd_def rd_call_def EXPAND_32_BYTE_K_def upt_0_2 upt_0_4
      replicate_16 Let_def) (simp add: eval_nat_numeral)

lemma ChaCha20_from_key_eq:
  assumes "length key = 8" and "length nonce = 2"
  shows "ChaCha20_from_key key nonce = EXPAND_32_BYTE_K @ key @ [0, 0] @ nonce"
proof -
  from assms(1) obtain a b c d e f g h where k: "key = [a, b, c, d, e, f, g, h]"
    using length_8_explicit by blast
  from assms(2) obtain n0 n1 where n: "nonce = [n0, n1]"
    using length_2_explicit by blast
  show ?thesis
    by (simp add: k n ChaCha20_from_key_def EXPAND_32_BYTE_K_def upt_0_8 upt_0_4
        replicate_16 Let_def)
qed

subsection \<open>ChaCha20: what a step changes\<close>

lemma length_block_snd: "length (snd (block s)) = length s"
  by (simp add: block_def Let_def)

lemma block_snd_nth:
  "i \<noteq> 12 \<Longrightarrow> i \<noteq> 13 \<Longrightarrow> snd (block s) ! i = s ! i"
  by (simp add: block_def Let_def)

lemma block_snd_12: "12 < length s \<Longrightarrow> snd (block s) ! 12 = s ! 12 + 1"
  by (simp add: block_def Let_def)

lemma block_snd_13:
  "13 < length s \<Longrightarrow>
   snd (block s) ! 13 = (if s ! 12 + 1 = 0 then s ! 13 + 1 else s ! 13)"
  by (simp add: block_def Let_def)

lemma snd_ChaCha20_next: "snd (ChaCha20_next s) = snd (block s)"
  by (simp add: ChaCha20_next_def split: prod.split)

lemma snd_ChaCha20_next512: "snd (ChaCha20_next512 s) = snd (block s)"
  by (simp add: ChaCha20_next512_def)

lemma chacha_run_length: "length (chacha_run cs s) = length s"
  by (induction cs s rule: chacha_run.induct)
     (simp_all add: snd_ChaCha20_next snd_ChaCha20_next512 length_block_snd)

lemma chacha_run_nth:
  "i \<noteq> 12 \<Longrightarrow> i \<noteq> 13 \<Longrightarrow> chacha_run cs s ! i = s ! i"
  by (induction cs s rule: chacha_run.induct)
     (simp_all add: snd_ChaCha20_next snd_ChaCha20_next512 block_snd_nth)

subsection \<open>ChaCha20: the block function against its description\<close>

lemma quarter_round_mixing:
  "quarter_round q = mixing [AD 16, CB 12, AD 8, CB 7] q"
  by (cases q) (simp add: quarter_round_def mixing_def rotl_word_rotl Let_def)

lemma quarter_round_at_mix_quadruple:
  "quarter_round_at i j k l ws = mix_quadruple [AD 16, CB 12, AD 8, CB 7] (i, j, k, l) ws"
  by (simp add: quarter_round_at_def mix_quadruple_def quarter_round_mixing)

lemma round_double_round: "round ws = double_round [AD 16, CB 12, AD 8, CB 7] ws"
  by (simp add: round_def double_round_def columns_def diagonals_def
      quarter_round_at_mix_quadruple Let_def)

lemma rounds_funpow: "rounds n ws = (round ^^ n) ws"
  by (induction n arbitrary: ws) (simp_all add: funpow_swap1)

lemma length_quarter_round_at: "length (quarter_round_at i j k l ws) = length ws"
  by (simp add: quarter_round_at_def split: prod.split)

lemma length_round: "length (round ws) = length ws"
  by (simp add: round_def Let_def length_quarter_round_at)

lemma length_rounds: "length (rounds n ws) = length ws"
  by (induction n arbitrary: ws) (simp_all add: length_round)

lemma add_state_map2:
  assumes "length ws = 16" and "length s = 16"
  shows "add_state s ws = map2 (+) ws s"
proof -
  from assms(1) obtain w0 w1 w2 w3 w4 w5 w6 w7 w8 w9 w10 w11 w12 w13 w14 w15
    where ws: "ws = [w0, w1, w2, w3, w4, w5, w6, w7, w8, w9, w10, w11, w12, w13, w14, w15]"
    by (auto dest: length_16_explicit)
  from assms(2) obtain x0 x1 x2 x3 x4 x5 x6 x7 x8 x9 x10 x11 x12 x13 x14 x15
    where s: "s = [x0, x1, x2, x3, x4, x5, x6, x7, x8, x9, x10, x11, x12, x13, x14, x15]"
    by (auto dest: length_16_explicit)
  show ?thesis
    by (simp add: ws s add_state_def STATE_SIZE_def upt_0_16)
qed

lemma block_fst:
  "length s = 16 \<Longrightarrow> fst (block s) = map2 (+) (rounds 10 s) s"
  by (simp add: block_def Let_def add_state_map2 length_rounds)

lemma list_update_12_13_same: "xs[12 := a, 13 := xs ! 13] = xs[12 := a]"
  by (subst list_update_swap) simp_all

lemma block_snd:
  "length s = 16 \<Longrightarrow>
   snd (block s) = s[12 := s ! 12 + 1, 13 := (if s ! 12 + 1 = 0 then s ! 13 + 1 else s ! 13)]"
  by (simp add: block_def Let_def list_update_12_13_same)

subsection \<open>ChaCha20: the counter as one 64-bit number\<close>

lemma concat64_add: "concat64 hi lo = push_bit 32 (ucast hi) + ucast lo"
  unfolding concat64_def
  by (rule disjunctive_add [symmetric]) (auto simp add: bit_simps dest: bit_imp_le_length)

lemma unat_concat64: "unat (concat64 hi lo) = unat hi * 2 ^ 32 + unat lo"
proof -
  have hi: "unat hi < 2 ^ 32" and lo: "unat lo < 2 ^ 32"
    using unsigned_less [of hi] unsigned_less [of lo] by simp_all
  from lo have "unat lo < 2 ^ 64" by simp
  then have 1: "unat (ucast lo :: u64) = unat lo"
    by (simp add: unsigned_ucast_eq take_bit_nat_eq_self)
  from hi have "unat hi < 2 ^ 64" by simp
  then have 0: "unat (ucast hi :: u64) = unat hi"
    by (simp add: unsigned_ucast_eq take_bit_nat_eq_self)
  from hi have "unat (ucast hi :: u64) * unat (2 ^ 32 :: u64) < 2 ^ LENGTH(64)"
    by (simp add: 0)
  then have "unat ((ucast hi :: u64) * 2 ^ 32) = unat (ucast hi :: u64) * unat (2 ^ 32 :: u64)"
    by (simp only: unat_mult_lem [THEN iffD1])
  then have 2: "unat (push_bit 32 (ucast hi :: u64)) = unat hi * 2 ^ 32"
    by (simp add: push_bit_eq_mult 0)
  from hi lo have "unat (push_bit 32 (ucast hi :: u64)) + unat (ucast lo :: u64) < 2 ^ LENGTH(64)"
    by (simp add: 1 2)
  then have "unat (push_bit 32 (ucast hi :: u64) + ucast lo) = unat hi * 2 ^ 32 + unat lo"
    by (simp only: unat_add_lem [THEN iffD1] 1 2)
  then show ?thesis
    by (simp add: concat64_add)
qed

lemma carry_nat:
  fixes a b :: nat
  assumes "a < 2 ^ 32" and "b < 2 ^ 32"
  shows "(if (b + 1) mod 2 ^ 32 = 0 then (a + 1) mod 2 ^ 32 else a) * 2 ^ 32 + (b + 1) mod 2 ^ 32
         = (a * 2 ^ 32 + b + 1) mod 2 ^ 64"
proof (cases "b + 1 = 2 ^ 32")
  case True
  then have b: "b = 4294967295" by simp
  show ?thesis
  proof (cases "a + 1 = 2 ^ 32")
    case True
    then have "a = 4294967295" by simp
    then show ?thesis by (simp add: b)
  next
    case False
    with assms have "a + 1 < 2 ^ 32" by simp
    then show ?thesis by (simp add: b)
  qed
next
  case False
  with assms have "b + 1 < 2 ^ 32" by simp
  with assms show ?thesis by simp
qed

lemma concat64_carry:
  "concat64 (if lo + 1 = 0 then hi + 1 else hi) (lo + 1) = concat64 hi lo + 1"
proof (rule unsigned_word_eqI [where ?'a = nat])
  have hi: "unat hi < 2 ^ 32" and lo: "unat lo < 2 ^ 32"
    using unsigned_less [of hi] unsigned_less [of lo] by simp_all
  have z: "lo + 1 = 0 \<longleftrightarrow> (unat lo + 1) mod 2 ^ 32 = 0"
    by (simp add: unat_eq_0 [symmetric] unat_word_ariths)
  show "unat (concat64 (if lo + 1 = 0 then hi + 1 else hi) (lo + 1)) = unat (concat64 hi lo + 1)"
    using carry_nat [OF hi lo]
    by (simp add: unat_concat64 unat_word_ariths z split: if_splits)
qed

lemma counter64_block:
  "length s = 16 \<Longrightarrow> counter64 (snd (block s)) = counter64 s + 1"
  using concat64_carry [of "s ! 12" "s ! 13"]
  by (simp add: block_snd_12 block_snd_13 counter64_def concat64_def)

subsection \<open>ChaCha20: the all-zero key, evaluated\<close>

lemma rounds_10: "rounds 10 ws = round (round (round (round (round (round (round (round (round (round ws)))))))))"
  by (simp add: eval_nat_numeral)

lemma funpow_10: "(f ^^ 10) x = f (f (f (f (f (f (f (f (f (f x)))))))))"
  by (simp add: eval_nat_numeral)

lemma ChaCha20_zero_key:
  "ChaCha20_from_key (replicate 8 0) [0, 0] =
    [0x61707865, 0x3320646e, 0x79622d32, 0x6b206574, 0, 0, 0, 0, 0, 0, 0, 0, 0, 0, 0, 0]"
  by (simp add: ChaCha20_from_key_def EXPAND_32_BYTE_K_def upt_0_4 upt_0_8 replicate_8
      replicate_16)

lemma rounds_10_zero_key:
  "rounds 10 [0x61707865, 0x3320646e, 0x79622d32, 0x6b206574, 0, 0, 0, 0, 0, 0, 0, 0, 0, 0, 0, 0] =
    [1282424849, 1562217778, 1812475918, 3181191391, 3088700093, 451775904,
     3438229160, 3339548555, 2086224346, 2370328401, 1071654007, 927652024,
     4105716586, 480319509, 1773569987, 2254827186]"
  by (simp add: rounds_10 round_def quarter_round_at_def quarter_round_def
      rotl_numeral rotl_0 rotl_1 Let_def cong: let_weak_cong)

lemma block_zero_key:
  "block (ChaCha20_from_key (replicate 8 0) [0, 0]) =
    (rfc8439_zero_block,
     [0x61707865, 0x3320646e, 0x79622d32, 0x6b206574, 0, 0, 0, 0, 0, 0, 0, 0, 1, 0, 0, 0])"
  by (simp add: ChaCha20_zero_key block_def rounds_10_zero_key add_state_def STATE_SIZE_def
      upt_0_16 rfc8439_zero_block_def Let_def cong: let_weak_cong)

lemma word_rotl_numeral:
  "k < 32 \<Longrightarrow> word_rotl k (numeral n :: u32) =
    word_of_nat (unat (push_bit k (numeral n :: u32) OR drop_bit (32 - k) (numeral n)))"
  by (simp add: rotl_word_rotl [symmetric] rotl_numeral)

lemma word_rotl_0: "word_rotl k (0 :: u32) = 0"
  by (rule bit_word_eqI) (simp add: bit_simps)

lemma word_rotl_1:
  "k < 32 \<Longrightarrow> word_rotl k (1 :: u32) =
    word_of_nat (unat (push_bit k (1 :: u32) OR drop_bit (32 - k) 1))"
  by (simp add: rotl_word_rotl [symmetric] rotl_1)

lemma three_steps_zero_key:
  "(double_round [AD 16, CB 12, AD 8] ^^ 10)
     [0x61707865, 0x3320646e, 0x79622d32, 0x6b206574, 0, 0, 0, 0, 0, 0, 0, 0, 0, 0, 0, 0] =
    [4014305106, 316633039, 3705816068, 2244572317, 1519313663, 221574125,
     2416114211, 3561610346, 3165460394, 3915806091, 3927137031, 3161150185,
     609298496, 578847786, 3779575529, 2438079331]"
  by (simp add: funpow_10 double_round_def columns_def diagonals_def mix_quadruple_def
      mixing_def word_rotl_numeral word_rotl_0 word_rotl_1)

subsection \<open>AES: integers and their bytes\<close>

lemma join_split_u32:
  fixes w :: u32
  shows "ucast (ucast w :: u8) OR push_bit 8 (ucast (ucast (drop_bit 8 w) :: u8))
         OR push_bit 16 (ucast (ucast (drop_bit 16 w) :: u8))
         OR push_bit 24 (ucast (ucast (drop_bit 24 w) :: u8)) = w"
proof (rule bit_word_eqI)
  fix n assume "n < LENGTH(32)"
  then consider "n < 8" | "8 \<le> n" "n < 16" | "16 \<le> n" "n < 24" | "24 \<le> n" "n < 32"
    by fastforce
  then show "bit (ucast (ucast w :: u8) OR push_bit 8 (ucast (ucast (drop_bit 8 w) :: u8))
         OR push_bit 16 (ucast (ucast (drop_bit 16 w) :: u8))
         OR push_bit 24 (ucast (ucast (drop_bit 24 w) :: u8)) :: u32) n = bit w n"
    by cases (auto simp add: bit_simps)
qed

lemma split_join_u32:
  fixes b0 b1 b2 b3 :: u8
  defines "w \<equiv> ucast b0 OR push_bit 8 (ucast b1) OR push_bit 16 (ucast b2)
                  OR push_bit 24 (ucast b3) :: u32"
  shows "ucast w = b0" and "ucast (drop_bit 8 w) = b1"
    and "ucast (drop_bit 16 w) = b2" and "ucast (drop_bit 24 w) = b3"
  unfolding w_def
  by (rule bit_word_eqI; auto simp add: bit_simps dest: bit_imp_le_length)+

lemma length_u32_bytes: "length (u32_bytes h w) = 4"
  by (simp add: u32_bytes_def split: endian.split)

lemma bytes_u32_u32_bytes:
  "u32_bytes h w = [b0, b1, b2, b3] \<Longrightarrow> bytes_u32 h b0 b1 b2 b3 = w"
  using join_split_u32 [of w]
  by (cases "byte_order h") (auto simp add: u32_bytes_def bytes_u32_def)

lemma u32_bytes_bytes_u32: "u32_bytes h (bytes_u32 h b0 b1 b2 b3) = [b0, b1, b2, b3]"
  by (cases "byte_order h") (simp_all only: u32_bytes_def bytes_u32_def endian.case split_join_u32)

subsection \<open>AES: reading and writing words in a byte array\<close>

lemma store32_eq:
  "store32 h a off w =
    a[off := u32_bytes h w ! 0, off + 1 := u32_bytes h w ! 1,
      off + 2 := u32_bytes h w ! 2, off + 3 := u32_bytes h w ! 3]"
  by (cases "byte_order h") (simp_all add: store32_def u32_bytes_def)

lemma length_store32: "length (store32 h a off w) = length a"
  by (simp add: store32_eq)

lemma store32_nth_other:
  "j < off \<or> off + 4 \<le> j \<Longrightarrow> store32 h a off w ! j = a ! j"
  by (auto simp add: store32_eq)

lemma take_store32: "n \<le> off \<Longrightarrow> take n (store32 h a off w) = take n a"
  by (simp add: store32_eq)

lemma load32_store32_other:
  "off' + 4 \<le> off \<or> off + 4 \<le> off' \<Longrightarrow>
   load32 h (store32 h a off w) off' = load32 h a off'"
  by (auto simp add: load32_def store32_nth_other)

lemma load32_store32_same:
  assumes "off + 3 < length a"
  shows "load32 h (store32 h a off w) off = w"
proof -
  obtain b0 b1 b2 b3 where b: "u32_bytes h w = [b0, b1, b2, b3]"
    by (cases "byte_order h") (simp_all add: u32_bytes_def)
  with assms have "load32 h (store32 h a off w) off = bytes_u32 h b0 b1 b2 b3"
    by (simp add: load32_def store32_eq)
  with b show ?thesis
    by (simp add: bytes_u32_u32_bytes)
qed

lemma u32_bytes_sub_temp_bytes:
  "u32_bytes h (sub_temp_bytes h w) = map sbox (u32_bytes h w)"
proof -
  obtain b0 b1 b2 b3 where b: "u32_bytes h w = [b0, b1, b2, b3]"
    by (cases "byte_order h") (simp_all add: u32_bytes_def)
  then show ?thesis
    by (simp add: sub_temp_bytes_def u32_bytes_bytes_u32)
qed

subsection \<open>AES: the key schedule\<close>

text \<open>The word that iteration \<open>i\<close> of the loop stores, from the words already there.\<close>

lemma key_expansion_step_eq:
  "key_expansion_step h i ek =
    store32 h ek (4 * i)
      (schedule_word h ek (i - 4) XOR
        (if i mod 4 = 0
         then sub_temp_bytes h (word_rotl 8 (schedule_word h ek (i - 1)))
              XOR shl_1 h ((i div 4 - 1) * 8)
         else schedule_word h ek (i - 1)))"
  by (simp add: key_expansion_step_def schedule_word_def Nk_def Let_def
      rotl_word_rotl [of 8, symmetric] rotl_def)

lemma length_key_expansion_step: "length (key_expansion_step h i ek) = length ek"
  by (simp add: key_expansion_step_eq length_store32)

lemma take_16_key_expansion_step:
  "4 \<le> i \<Longrightarrow> take 16 (key_expansion_step h i ek) = take 16 ek"
  by (simp add: key_expansion_step_eq take_store32)

lemma schedule_word_step_below:
  "j < i \<Longrightarrow> schedule_word h (key_expansion_step h i ek) j = schedule_word h ek j"
  by (simp add: key_expansion_step_eq schedule_word_def load32_store32_other)

lemma schedule_word_step_at:
  "4 * i + 3 < length ek \<Longrightarrow>
   schedule_word h (key_expansion_step h i ek) i =
     schedule_word h ek (i - 4) XOR
       (if i mod 4 = 0
        then sub_temp_bytes h (word_rotl 8 (schedule_word h ek (i - 1)))
             XOR shl_1 h ((i div 4 - 1) * 8)
        else schedule_word h ek (i - 1))"
  by (simp add: key_expansion_step_eq schedule_word_def load32_store32_same)

lemma length_fold_steps:
  "length (fold (key_expansion_step h) ixs ek) = length ek"
  by (induction ixs arbitrary: ek) (simp_all add: length_key_expansion_step)

lemma take_16_fold_steps:
  "\<forall>i\<in>set ixs. 4 \<le> i \<Longrightarrow> take 16 (fold (key_expansion_step h) ixs ek) = take 16 ek"
  by (induction ixs arbitrary: ek) (simp_all add: take_16_key_expansion_step)

text \<open>The shift of the code against the round constant, and the substitution of the code
  against the table.\<close>

lemma shl_1_round_constant: "shl_1 h ((i div 4 - 1) * 8) = round_constant h i"
proof (cases "i div 4 \<le> 4")
  case True
  then have "(i div 4 - 1) * 8 < 32"
    by simp
  then show ?thesis
    using True by (simp add: shl_1_def round_constant_def push_bit_of_1 mult.commute)
next
  case False
  then have "\<not> (i div 4 - 1) * 8 < 32"
    by simp
  then show ?thesis
    using False by (simp add: shl_1_def round_constant_def mult.commute)
qed

lemma table_substituted_sub_temp_bytes: "table_substituted h w (sub_temp_bytes h w)"
  by (simp add: table_substituted_def u32_bytes_sub_temp_bytes sbox_def)

lemma u32_bytes_inject: "u32_bytes h v = u32_bytes h w \<Longrightarrow> v = w"
proof -
  assume eq: "u32_bytes h v = u32_bytes h w"
  obtain b0 b1 b2 b3 where b: "u32_bytes h w = [b0, b1, b2, b3]"
    by (cases "byte_order h") (simp_all add: u32_bytes_def)
  with eq have "u32_bytes h v = [b0, b1, b2, b3]"
    by simp
  then have "bytes_u32 h b0 b1 b2 b3 = v"
    by (rule bytes_u32_u32_bytes)
  moreover from b have "bytes_u32 h b0 b1 b2 b3 = w"
    by (rule bytes_u32_u32_bytes)
  ultimately show "v = w"
    by simp
qed

lemma table_substituted_unique: "table_substituted h w t \<longleftrightarrow> t = sub_temp_bytes h w"
proof
  assume "table_substituted h w t"
  then have "u32_bytes h t = u32_bytes h (sub_temp_bytes h w)"
    by (simp add: table_substituted_def u32_bytes_sub_temp_bytes sbox_def)
  then show "t = sub_temp_bytes h w"
    by (rule u32_bytes_inject)
next
  assume "t = sub_temp_bytes h w"
  then show "table_substituted h w t"
    by (simp add: table_substituted_sub_temp_bytes)
qed

lemma xor_move:
  fixes a b c s :: u32
  shows "a XOR b XOR c = s \<longleftrightarrow> a = b XOR (s XOR c)"
  by (auto simp add: bit_eq_iff bit_simps)

lemma schedule_recurrence_iff:
  "schedule_recurrence h ek i \<longleftrightarrow>
    schedule_word h ek i =
      schedule_word h ek (i - 4) XOR
        (if i mod 4 = 0
         then sub_temp_bytes h (word_rotl 8 (schedule_word h ek (i - 1)))
              XOR shl_1 h ((i div 4 - 1) * 8)
         else schedule_word h ek (i - 1))"
  by (simp add: schedule_recurrence_def table_substituted_unique xor_move
      shl_1_round_constant [symmetric])

lemma schedule_recurrence_value:
  "schedule_recurrence h ek i \<longleftrightarrow>
    schedule_word h ek i =
      schedule_word h ek (i - 4) XOR
        (if i mod 4 = 0
         then sub_temp_bytes h (word_rotl 8 (schedule_word h ek (i - 1))) XOR round_constant h i
         else schedule_word h ek (i - 1))"
  by (simp add: schedule_recurrence_iff shl_1_round_constant [symmetric])

lemma fold_steps_recurrence:
  assumes "length ek = 176" and "n \<le> 44"
  shows "\<forall>i. 4 \<le> i \<and> i < n \<longrightarrow>
           schedule_recurrence h (fold (key_expansion_step h) [4..<n] ek) i"
  using assms(2)
proof (induction n)
  case 0
  then show ?case by simp
next
  case (Suc n)
  show ?case
  proof (cases "4 \<le> n")
    case False
    then show ?thesis by auto
  next
    case True
    let ?ek = "fold (key_expansion_step h) [4..<n] ek"
    from True have unfold: "fold (key_expansion_step h) [4..<Suc n] ek = key_expansion_step h n ?ek"
      by simp
    from Suc.prems assms(1) have in_range: "4 * n + 3 < length ?ek"
      by (simp add: length_fold_steps)
    from Suc have IH: "\<forall>i. 4 \<le> i \<and> i < n \<longrightarrow> schedule_recurrence h ?ek i"
      by simp
    show ?thesis
    proof (intro allI impI)
      fix i assume i: "4 \<le> i \<and> i < Suc n"
      show "schedule_recurrence h (fold (key_expansion_step h) [4..<Suc n] ek) i"
      proof (cases "i = n")
        case True
        with i in_range show ?thesis
          unfolding unfold schedule_recurrence_iff
          by (simp add: schedule_word_step_at schedule_word_step_below)
      next
        case False
        with i have "i < n" by simp
        with i IH have "schedule_recurrence h ?ek i" by simp
        with \<open>i < n\<close> i show ?thesis
          unfolding unfold schedule_recurrence_iff
          by (simp add: schedule_word_step_below)
      qed
    qed
  qed
qed

lemma key_expansion_schedule:
  assumes "length key = 16" and "length (m_expanded_key e) = 176"
  shows "length (m_expanded_key (key_expansion h key e)) = 176"
    and "take 16 (m_expanded_key (key_expansion h key e)) = key"
    and "\<forall>i. 4 \<le> i \<and> i < 44 \<longrightarrow> schedule_recurrence h (m_expanded_key (key_expansion h key e)) i"
    and "m_state (key_expansion h key e) = m_state e"
proof -
  let ?ek0 = "key @ drop 16 (m_expanded_key e)"
  from assms have len: "length ?ek0 = 176" by simp
  have ek: "m_expanded_key (key_expansion h key e) = fold (key_expansion_step h) [4..<44] ?ek0"
    by (simp add: key_expansion_def Nk_def Nb_def Nr_def Let_def)
  from len show "length (m_expanded_key (key_expansion h key e)) = 176"
    by (simp only: ek length_fold_steps)
  have "take 16 (fold (key_expansion_step h) [4..<44] ?ek0) = take 16 ?ek0"
    by (rule take_16_fold_steps) (simp del: upt_rec_numeral)
  with assms(1) show "take 16 (m_expanded_key (key_expansion h key e)) = key"
    by (simp only: ek) simp
  from fold_steps_recurrence [OF len, of 44 h]
  show "\<forall>i. 4 \<le> i \<and> i < 44 \<longrightarrow> schedule_recurrence h (m_expanded_key (key_expansion h key e)) i"
    by (simp only: ek) simp
  show "m_state (key_expansion h key e) = m_state e"
    by (simp add: key_expansion_def Let_def)
qed

subsection \<open>AES: what a step changes\<close>

lemma m_expanded_key_increment_counter:
  "m_expanded_key (increment_counter h e) = m_expanded_key e"
  by (simp add: increment_counter_def Let_def)

lemma snd_process_block: "snd (process_block h buffer e) = increment_counter h e"
  by (simp add: process_block_def Let_def)

lemma snd_AESCTR_next: "snd (AESCTR_next h buffer e) = increment_counter h e"
  by (simp add: AESCTR_next_def case_prod_beta snd_process_block)

lemma snd_AESCTR_next128: "snd (AESCTR_next128 h buffer e) = increment_counter h e"
  by (simp add: AESCTR_next128_def case_prod_beta snd_process_block)

lemma m_expanded_key_aes_run: "m_expanded_key (aes_run h cs e) = m_expanded_key e"
  by (induction h cs e rule: aes_run.induct)
     (simp_all add: snd_process_block snd_AESCTR_next snd_AESCTR_next128
       m_expanded_key_increment_counter)

subsection \<open>AES: the counter\<close>

lemma increment_counter_carry:
  assumes "length (m_state e) = 16" and "load32 h (m_state e) 12 = - 1"
  shows "load32 h (m_state (increment_counter h e)) 12 = 0"
    and "load32 h (m_state (increment_counter h e)) 8 = load32 h (m_state e) 8 + 1"
  using assms
  by (simp_all add: increment_counter_def Let_def load32_store32_same load32_store32_other
      length_store32)

lemma increment_counter_no_carry:
  assumes "length (m_state e) = 16" and "load32 h (m_state e) 12 \<noteq> - 1"
  shows "load32 h (m_state (increment_counter h e)) 12 = load32 h (m_state e) 12 + 1"
    and "load32 h (m_state (increment_counter h e)) 8 = load32 h (m_state e) 8"
    and "load32 h (m_state (increment_counter h e)) 4 = load32 h (m_state e) 4"
    and "load32 h (m_state (increment_counter h e)) 0 = load32 h (m_state e) 0"
proof -
  from assms(2) have "load32 h (m_state e) 12 + 1 \<noteq> 0"
    using eq_neg_iff_add_eq_0 [of "load32 h (m_state e) 12" 1] by blast
  with assms(1) show "load32 h (m_state (increment_counter h e)) 12 = load32 h (m_state e) 12 + 1"
    and "load32 h (m_state (increment_counter h e)) 8 = load32 h (m_state e) 8"
    and "load32 h (m_state (increment_counter h e)) 4 = load32 h (m_state e) 4"
    and "load32 h (m_state (increment_counter h e)) 0 = load32 h (m_state e) 0"
    by (simp_all add: increment_counter_def Let_def load32_store32_same load32_store32_other)
qed

lemma increment_counter_all_ones:
  "m_state (increment_counter h (e\<lparr>m_state := replicate 16 0xFF\<rparr>)) = replicate 16 0"
  by (cases "byte_order h")
     (simp_all add: increment_counter_def load32_def store32_def u32_bytes_def bytes_u32_def
       replicate_16 Let_def)

subsection \<open>AES: the block transform\<close>

lemma take_16_explicit:
  "16 \<le> length xs \<Longrightarrow>
   take 16 xs = [xs ! 0, xs ! 1, xs ! 2, xs ! 3, xs ! 4, xs ! 5, xs ! 6, xs ! 7,
                 xs ! 8, xs ! 9, xs ! 10, xs ! 11, xs ! 12, xs ! 13, xs ! 14, xs ! 15]"
proof -
  assume "16 \<le> length xs"
  then have "take 16 xs = map ((!) xs) [0..<16]"
    by (simp add: list_eq_iff_nth_eq)
  then show ?thesis
    by (simp add: upt_0_16)
qed

lemma fst_process_block:
  assumes "length buffer = 16" and "32 \<le> length (m_expanded_key e)"
  shows "fst (process_block h buffer e) = block_transform (m_expanded_key e) buffer"
proof -
  from assms(1) obtain b0 b1 b2 b3 b4 b5 b6 b7 b8 b9 b10 b11 b12 b13 b14 b15
    where b: "buffer = [b0, b1, b2, b3, b4, b5, b6, b7, b8, b9, b10, b11, b12, b13, b14, b15]"
    by (auto dest: length_16_explicit)
  from assms(2) have k0: "take 16 (m_expanded_key e) =
      map ((!) (m_expanded_key e)) [0, 1, 2, 3, 4, 5, 6, 7, 8, 9, 10, 11, 12, 13, 14, 15]"
    by (simp add: take_16_explicit)
  from assms(2) have k1: "take 16 (drop 16 (m_expanded_key e)) =
      map ((!) (m_expanded_key e))
        [16, 17, 18, 19, 20, 21, 22, 23, 24, 25, 26, 27, 28, 29, 30, 31]"
    by (simp add: take_16_explicit)
  show ?thesis
    unfolding block_transform_def k0 k1
    by (simp add: b process_block_def add_round_key_def sub_bytes_def shift_rows_def
        shift_rows_index_def upt_0_16 Let_def)
qed

lemma process_block_ignores_counter:
  "fst (process_block h buffer (e\<lparr>m_state := c\<rparr>)) = fst (process_block h buffer e)"
  by (simp add: process_block_def Let_def)

subsection \<open>AES: folding the block into 64 bits\<close>

lemma fst_AESCTR_next:
  assumes "length buffer = 16"
  shows "fst (AESCTR_next h buffer e) =
          le64 (take 8 (fst (process_block h buffer e)))
          XOR le64 (drop 8 (fst (process_block h buffer e)))"
proof -
  have "length (fst (process_block h buffer e)) = 16"
    using assms by (simp add: process_block_def Let_def upt_0_16)
  then obtain b0 b1 b2 b3 b4 b5 b6 b7 b8 b9 b10 b11 b12 b13 b14 b15
    where b: "fst (process_block h buffer e) =
      [b0, b1, b2, b3, b4, b5, b6, b7, b8, b9, b10, b11, b12, b13, b14, b15]"
    by (auto dest: length_16_explicit)
  show ?thesis
    by (simp add: AESCTR_next_def case_prod_beta b le64_def upt_0_8)
qed

lemma fst_AESCTR_next128:
  "fst (AESCTR_next128 h buffer e) =
    [load64 h (fst (process_block h buffer e)) 0, load64 h (fst (process_block h buffer e)) 8]"
  by (simp add: AESCTR_next128_def case_prod_beta)

subsection \<open>AES: the all-zero key, evaluated\<close>

lemma take_fold_steps:
  "\<forall>i\<in>set ixs. n \<le> 4 * i \<Longrightarrow> take n (fold (key_expansion_step h) ixs ek) = take n ek"
  by (induction ixs arbitrary: ek) (simp_all add: key_expansion_step_eq take_store32)

lemma upt_4_44: "[4..<44] = [4, 5, 6, 7] @ [8..<44]"
  by simp

lemma take_32_key_expansion:
  "take 32 (m_expanded_key (key_expansion h key e)) =
    take 32 (fold (key_expansion_step h) [4, 5, 6, 7] (key @ drop 16 (m_expanded_key e)))"
proof -
  have "\<forall>i\<in>set [8..<44]. (32 :: nat) \<le> 4 * i"
    by (simp del: upt_rec_numeral)
  then show ?thesis
    by (simp add: key_expansion_def Nk_def Nb_def Nr_def Let_def take_fold_steps upt_4_44
        del: upt_rec_numeral)
qed

lemma sbox_0: "sbox 0 = 0x63"
  by (simp add: sbox_def SBOX_def)

lemma replicate_176: "replicate 176 x = replicate 16 x @ replicate 16 x @ replicate 144 x"
  by (simp add: replicate_add [symmetric])

lemma take_32_aes_zero:
  "take 32 (m_expanded_key aes_zero) =
    [0, 0, 0, 0, 0, 0, 0, 0, 0, 0, 0, 0, 0, 0, 0, 0,
     98, 99, 99, 99, 98, 99, 99, 99, 98, 99, 99, 99, 98, 99, 99, 99]"
  apply (simp add: aes_zero_def AESCTR_from_key_def take_32_key_expansion replicate_176
      replicate_16 Let_def)
  apply (simp add: key_expansion_step_def load32_def store32_def u32_bytes_def bytes_u32_def
      sub_temp_bytes_def shl_1_def x86_64_def Nk_def sbox_0 Let_def nth_append
      list_update_append cong: let_weak_cong)
  done

lemma block_transform_take_32: "block_transform ek input = block_transform (take 32 ek) input"
  by (simp add: block_transform_def drop_take)

lemma length_m_expanded_key_from_key:
  "length key = 16 \<Longrightarrow> length ek0 = 176 \<Longrightarrow>
   length (m_expanded_key (AESCTR_from_key h ek0 key nonce)) = 176"
  by (simp add: AESCTR_from_key_def Let_def key_expansion_schedule(1))

lemma m_state_from_key:
  "length nonce = 16 \<Longrightarrow> m_state (AESCTR_from_key h ek0 key nonce) = nonce"
  by (simp add: AESCTR_from_key_def Let_def key_expansion_def)

lemma length_m_expanded_key_aes_zero: "length (m_expanded_key aes_zero) = 176"
  by (simp add: aes_zero_def length_m_expanded_key_from_key)

lemma m_state_aes_zero: "m_state aes_zero = replicate 16 0"
  by (simp add: aes_zero_def m_state_from_key)

lemma block_transform_aes_zero_ones:
  "block_transform (m_expanded_key aes_zero) (replicate 16 0xFF) =
    [116, 117, 117, 117, 116, 117, 117, 117, 116, 117, 117, 117, 116, 117, 117, 117]"
  by (subst block_transform_take_32)
     (simp add: take_32_aes_zero block_transform_def add_round_key_def sub_bytes_def
       shift_rows_def shift_rows_index_def sbox_def SBOX_def replicate_16)

lemma block_transform_aes_zero_zeros:
  "block_transform (m_expanded_key aes_zero) (replicate 16 0) =
    [1, 0, 0, 0, 1, 0, 0, 0, 1, 0, 0, 0, 1, 0, 0, 0]"
  by (subst block_transform_take_32)
     (simp add: take_32_aes_zero block_transform_def add_round_key_def sub_bytes_def
       shift_rows_def shift_rows_index_def sbox_def SBOX_def replicate_16)

lemma block_transform_aes_zero_count:
  "block_transform (m_expanded_key aes_zero) [0, 1, 2, 3, 4, 5, 6, 7, 8, 9, 10, 11, 12, 13, 14, 15] =
    [1, 8, 4, 21, 144, 98, 200, 24, 82, 180, 20, 166, 156, 31, 12, 72]"
  by (subst block_transform_take_32)
     (simp add: take_32_aes_zero block_transform_def add_round_key_def sub_bytes_def
       shift_rows_def shift_rows_index_def sbox_def SBOX_def)

lemma schedule_word_from_take:
  assumes "take 16 ek = key" and "i < 4"
  shows "schedule_word h ek i = schedule_word h key i"
proof -
  have "ek ! j = key ! j" if "j < 16" for j
    using that assms(1) by (metis nth_take)
  with assms(2) show ?thesis
    by (simp add: schedule_word_def load32_def)
qed

lemma length_SBOX: "length SBOX = 256"
  by (simp add: SBOX_def)

lemma aes_seq_eq:
  "aes_seq =
    key_expansion x86_64 [0, 1, 2, 3, 4, 5, 6, 7, 8, 9, 10, 11, 12, 13, 14, 15]
      \<lparr>m_state = replicate 16 0, m_expanded_key = replicate 176 0\<rparr>"
  by (simp add: aes_seq_def AESCTR_from_key_def)

lemma x86_64_sel:
  "byte_order x86_64 = Little" "shl_overflow x86_64 n = push_bit (n mod 32) 1"
  by (simp_all add: x86_64_def)

lemmas schedule_eval =
  schedule_recurrence_value sub_temp_bytes_def u32_bytes_def bytes_u32_def sbox_def SBOX_def
  round_constant_def x86_64_sel word_rotl_numeral

lemma length_fst_process_block:
  "length buffer = 16 \<Longrightarrow> length (fst (process_block h buffer e)) = 16"
  by (simp add: process_block_def Let_def upt_0_16)

lemma next_loop_fold_pairs: "next_loop 0 r 0 = fold_pairs r"
  by (simp add: next_loop.simps fold_pairs_def concat64_def upt_0_8 ac_simps eval_nat_numeral)

lemma take_4_from_nth:
  assumes "4 \<le> length xs" and "4 \<le> length ys" and "\<And>i. i < 4 \<Longrightarrow> xs ! i = ys ! i"
  shows "take 4 xs = take 4 ys"
  using assms by (simp add: list_eq_iff_nth_eq)

subsection \<open>Folding a block into 64 bits\<close>

lemma ChaCha20_next_is_fold_of_next512:
  "fst (ChaCha20_next s) = fold_pairs (fst (ChaCha20_next512 s))
   \<and> snd (ChaCha20_next s) = snd (ChaCha20_next512 s)"
  by (simp add: ChaCha20_next_def ChaCha20_next512_def case_prod_beta next_loop_fold_pairs)

lemma AESCTR_next_folds_the_block_of_its_buffer:
  assumes "length buffer = 16"
  shows "fst (AESCTR_next h buffer e) =
          le64 (take 8 (fst (process_block h buffer e)))
          XOR le64 (drop 8 (fst (process_block h buffer e)))
         \<and> fst (AESCTR_next128 h buffer e) =
             [load64 h (fst (process_block h buffer e)) 0,
              load64 h (fst (process_block h buffer e)) 8]
         \<and> snd (AESCTR_next h buffer e) = snd (AESCTR_next128 h buffer e)"
  using assms
  by (simp add: fst_AESCTR_next fst_AESCTR_next128 snd_AESCTR_next snd_AESCTR_next128)

section \<open>The claims\<close>

subsection \<open>C1\<close>

text \<open>
  C1 (as amended). One call of \<^verbatim>\<open>block()\<close> on any 16-word state: the working copy goes
  through ten double rounds, each the quarter round on the four columns and then on the
  four diagonals, where the quarter round is four mixing steps (four additions, four XORs
  and four left rotations, by 16, 12, 8 and 7 bits); the pre-round state is added word by
  word modulo \<open>2^32\<close> and the sum is the returned block; the engine is left with the
  64-bit counter of words 12 and 13 incremented, the carry going from word 12 into
  word 13 when word 12 wraps to zero.
\<close>

theorem C1_block_is_ten_double_rounds:
  assumes "length s = 16"
  shows "block s = block_spec [AD 16, CB 12, AD 8, CB 7] s
         \<and> quarter_round q = mixing [AD 16, CB 12, AD 8, CB 7] q
         \<and> counter64 (snd (block s)) = counter64 s + 1"
proof -
  have "round = double_round [AD 16, CB 12, AD 8, CB 7]"
    by (rule ext) (rule round_double_round)
  then have "rounds 10 s = (double_round [AD 16, CB 12, AD 8, CB 7] ^^ 10) s"
    by (simp add: rounds_funpow)
  with assms have "block s = block_spec [AD 16, CB 12, AD 8, CB 7] s"
    by (simp add: prod_eq_iff block_fst block_snd block_spec_def)
  with counter64_block [OF assms] quarter_round_mixing [of q] show ?thesis
    by simp
qed

theorem C1_witness:
  "length (ChaCha20_from_key (replicate 8 0) [0, 0]) = 16
   \<and> block_spec [AD 16, CB 12, AD 8, CB 7] (ChaCha20_from_key (replicate 8 0) [0, 0]) =
       (rfc8439_zero_block,
        [0x61707865, 0x3320646e, 0x79622d32, 0x6b206574, 0, 0, 0, 0, 0, 0, 0, 0, 1, 0, 0, 0])
   \<and> counter64 (snd (block (ChaCha20_from_key (replicate 8 0) [0, 0]))) = 1"
proof -
  have len: "length (ChaCha20_from_key (replicate 8 0) [0, 0]) = 16"
    by (simp add: ChaCha20_zero_key)
  have zero: "counter64 (ChaCha20_from_key (replicate 8 0) [0, 0]) = 0"
    by (simp add: ChaCha20_zero_key counter64_def)
  note c1 = C1_block_is_ten_double_rounds [OF len]
  from c1 have "block (ChaCha20_from_key (replicate 8 0) [0, 0]) =
      block_spec [AD 16, CB 12, AD 8, CB 7] (ChaCha20_from_key (replicate 8 0) [0, 0])"
    by (rule conjunct1)
  then have "block_spec [AD 16, CB 12, AD 8, CB 7] (ChaCha20_from_key (replicate 8 0) [0, 0]) =
      block (ChaCha20_from_key (replicate 8 0) [0, 0])"
    by (rule sym)
  moreover from c1 have "counter64 (snd (block (ChaCha20_from_key (replicate 8 0) [0, 0]))) =
      counter64 (ChaCha20_from_key (replicate 8 0) [0, 0]) + 1"
    by (rule conjunct2 [THEN conjunct2])
  ultimately show ?thesis
    using len zero by (simp add: block_zero_key)
qed

text \<open>
  C1 as stated fails: a quarter round of three mixing steps, whichever three of the four
  rotations it uses, is not the quarter round of the code, and with the first three the
  block for the all-zero key differs from the block the code returns.
\<close>

theorem C1_counterexample:
  "quarter_round (0, 0, 0, 1) \<noteq> mixing [AD 16, CB 12, AD 8] (0, 0, 0, 1)
   \<and> quarter_round (0, 0, 0, 1) \<noteq> mixing [AD 16, CB 12, CB 7] (0, 0, 0, 1)
   \<and> quarter_round (0, 0, 0, 1) \<noteq> mixing [AD 16, AD 8, CB 7] (0, 0, 0, 1)
   \<and> quarter_round (0, 0, 0, 1) \<noteq> mixing [CB 12, AD 8, CB 7] (0, 0, 0, 1)
   \<and> block (ChaCha20_from_key (replicate 8 0) [0, 0])
       \<noteq> block_spec [AD 16, CB 12, AD 8] (ChaCha20_from_key (replicate 8 0) [0, 0])"
proof -
  have "quarter_round (0, 0, 0, 1) = (268435456, 2155874312, 16842768, 16777232)"
    by (simp add: quarter_round_def rotl_numeral rotl_0 rotl_1 Let_def cong: let_weak_cong)
  moreover have "mixing [AD 16, CB 12, AD 8] (0, 0, 0, 1) = (268435456, 268435456, 65536, 16777232)"
    by (simp add: mixing_def word_rotl_numeral word_rotl_0 word_rotl_1)
  moreover have "mixing [AD 16, CB 12, CB 7] (0, 0, 0, 1) = (0, 16777224, 131072, 65536)"
    by (simp add: mixing_def word_rotl_numeral word_rotl_0 word_rotl_1)
  moreover have "mixing [AD 16, AD 8, CB 7] (0, 0, 0, 1) = (0, 2147483648, 16777216, 16777216)"
    by (simp add: mixing_def word_rotl_numeral word_rotl_0 word_rotl_1)
  moreover have "mixing [CB 12, AD 8, CB 7] (0, 0, 0, 1) = (4096, 134774912, 1048833, 1048832)"
    by (simp add: mixing_def word_rotl_numeral word_rotl_0 word_rotl_1)
  moreover have "fst (block_spec [AD 16, CB 12, AD 8] (ChaCha20_from_key (replicate 8 0) [0, 0])) ! 0
      = 1354098615"
    by (simp add: block_spec_def ChaCha20_zero_key three_steps_zero_key)
  moreover have "fst (block (ChaCha20_from_key (replicate 8 0) [0, 0])) ! 0 = 2917185654"
    by (simp add: block_zero_key rfc8439_zero_block_def)
  ultimately show ?thesis
    by auto
qed

subsection \<open>C2\<close>

text \<open>
  C2. The engine built from the all-zero key and the all-zero nonce returns, at its first
  \<^verbatim>\<open>next512()\<close>, the published ChaCha20 block for the all-zero key, nonce and counter.
\<close>

theorem C2_zero_key_test_vector:
  "fst (ChaCha20_next512 (ChaCha20_from_key (replicate 8 0) [0, 0])) = rfc8439_zero_block"
  by (simp add: ChaCha20_next512_def block_zero_key)

subsection \<open>C3\<close>

text \<open>
  C3: the code departs from the claim. \<^verbatim>\<open>process_block\<close> transforms the buffer it is
  handed, which \<^verbatim>\<open>next()\<close> and \<^verbatim>\<open>next128()\<close> leave uninitialised, and never reads
  the counter. For the engine of the all-zero key and nonce and a buffer that happens to
  hold \<^verbatim>\<open>0xFF\<close> bytes, the block returned is the transform of the buffer, not the
  transform of the counter, and the next call returns the same block again although the
  counter has advanced.
\<close>

theorem C3_process_block_transforms_the_buffer:
  "fst (process_block x86_64 (replicate 16 0xFF) aes_zero) =
     [116, 117, 117, 117, 116, 117, 117, 117, 116, 117, 117, 117, 116, 117, 117, 117]
   \<and> block_transform (m_expanded_key aes_zero) (m_state aes_zero) =
     [1, 0, 0, 0, 1, 0, 0, 0, 1, 0, 0, 0, 1, 0, 0, 0]
   \<and> m_state (snd (process_block x86_64 (replicate 16 0xFF) aes_zero)) \<noteq> m_state aes_zero
   \<and> fst (process_block x86_64 (replicate 16 0xFF)
            (snd (process_block x86_64 (replicate 16 0xFF) aes_zero))) =
       fst (process_block x86_64 (replicate 16 0xFF) aes_zero)"
proof -
  have 1: "fst (process_block x86_64 (replicate 16 0xFF) aes_zero) =
      [116, 117, 117, 117, 116, 117, 117, 117, 116, 117, 117, 117, 116, 117, 117, 117]"
    by (simp add: fst_process_block length_m_expanded_key_aes_zero
        block_transform_aes_zero_ones)
  have 2: "block_transform (m_expanded_key aes_zero) (m_state aes_zero) =
      [1, 0, 0, 0, 1, 0, 0, 0, 1, 0, 0, 0, 1, 0, 0, 0]"
    by (simp add: m_state_aes_zero block_transform_aes_zero_zeros)
  have 3: "m_state (snd (process_block x86_64 (replicate 16 0xFF) aes_zero)) =
      [0, 0, 0, 0, 0, 0, 0, 0, 0, 0, 0, 0, 1, 0, 0, 0]"
    by (simp add: snd_process_block increment_counter_def m_state_aes_zero load32_def
        store32_def u32_bytes_def bytes_u32_def x86_64_def replicate_16 Let_def)
  have 4: "fst (process_block x86_64 (replicate 16 0xFF)
            (snd (process_block x86_64 (replicate 16 0xFF) aes_zero))) =
       fst (process_block x86_64 (replicate 16 0xFF) aes_zero)"
    by (simp add: fst_process_block snd_process_block m_expanded_key_increment_counter
        length_m_expanded_key_aes_zero)
  from 1 2 3 4 show ?thesis
    by (simp add: m_state_aes_zero replicate_16)
qed

subsection \<open>C4\<close>



subsection \<open>C5\<close>

text \<open>
  C5. One block call on a ChaCha20 state whose word 12 is \<^verbatim>\<open>0xFFFFFFFF\<close> leaves word 12
  at 0 and word 13 incremented by 1. One increment of an AES counter whose
  least-significant 32-bit word (\<^verbatim>\<open>counter[3]\<close>) is all ones leaves that word at 0 and
  the next word (\<^verbatim>\<open>counter[2]\<close>) incremented by 1, and a counter of sixteen \<^verbatim>\<open>0xFF\<close>
  bytes becomes sixteen zero bytes; this is the increment every \<^verbatim>\<open>process_block\<close> makes.
\<close>

theorem C5_counter_carry:
  assumes "length s = 16" and "s ! 12 = 0xFFFFFFFF"
    and "length (m_state e) = 16" and "load32 h (m_state e) 12 = 0xFFFFFFFF"
  shows "snd (block s) ! 12 = 0 \<and> snd (block s) ! 13 = s ! 13 + 1
         \<and> load32 h (m_state (increment_counter h e)) 12 = 0
         \<and> load32 h (m_state (increment_counter h e)) 8 = load32 h (m_state e) 8 + 1
         \<and> m_state (increment_counter h (e\<lparr>m_state := replicate 16 0xFF\<rparr>)) = replicate 16 0
         \<and> snd (process_block h buffer e) = increment_counter h e"
proof -
  from assms(4) have "load32 h (m_state e) 12 = - 1"
    by simp
  from increment_counter_carry [OF assms(3) this] assms(1,2) show ?thesis
    by (simp add: block_snd_12 block_snd_13 increment_counter_all_ones snd_process_block)
qed

theorem C5_witness:
  "length [0, 0, 0, 0, 0, 0, 0, 0, 0, 0, 0, 0, 0xFFFFFFFF, 5, 0, 0 :: u32] = 16
   \<and> [0, 0, 0, 0, 0, 0, 0, 0, 0, 0, 0, 0, 0xFFFFFFFF, 5, 0, 0 :: u32] ! 12 = 0xFFFFFFFF
   \<and> length (m_state (aes_zero\<lparr>m_state := [0, 0, 0, 0, 0, 0, 0, 0, 7, 0, 0, 0, 255, 255, 255, 255]\<rparr>)) = 16
   \<and> load32 x86_64
        (m_state (aes_zero\<lparr>m_state := [0, 0, 0, 0, 0, 0, 0, 0, 7, 0, 0, 0, 255, 255, 255, 255]\<rparr>)) 12
       = 0xFFFFFFFF
   \<and> snd (block [0, 0, 0, 0, 0, 0, 0, 0, 0, 0, 0, 0, 0xFFFFFFFF, 5, 0, 0]) ! 12 = 0
   \<and> snd (block [0, 0, 0, 0, 0, 0, 0, 0, 0, 0, 0, 0, 0xFFFFFFFF, 5, 0, 0]) ! 13 = 6
   \<and> load32 x86_64
        (m_state (increment_counter x86_64
          (aes_zero\<lparr>m_state := [0, 0, 0, 0, 0, 0, 0, 0, 7, 0, 0, 0, 255, 255, 255, 255]\<rparr>))) 12 = 0
   \<and> load32 x86_64
        (m_state (increment_counter x86_64
          (aes_zero\<lparr>m_state := [0, 0, 0, 0, 0, 0, 0, 0, 7, 0, 0, 0, 255, 255, 255, 255]\<rparr>))) 8 = 8"
proof -
  let ?s = "[0, 0, 0, 0, 0, 0, 0, 0, 0, 0, 0, 0, 0xFFFFFFFF, 5, 0, 0 :: u32]"
  let ?e = "aes_zero\<lparr>m_state := [0, 0, 0, 0, 0, 0, 0, 0, 7, 0, 0, 0, 255, 255, 255, 255]\<rparr>"
  have 1: "length ?s = 16" and 2: "?s ! 12 = 0xFFFFFFFF" and 3: "length (m_state ?e) = 16"
    by simp_all
  have 4: "load32 x86_64 (m_state ?e) 12 = 0xFFFFFFFF"
    by (simp add: load32_def bytes_u32_def x86_64_def)
  have 5: "load32 x86_64 (m_state ?e) 8 = 7"
    by (simp add: load32_def bytes_u32_def x86_64_def)
  from C5_counter_carry [OF 1 2 3 4] 1 2 3 4 5 show ?thesis
    by simp
qed

subsection \<open>C6\<close>

text \<open>
  C6. Expanding a 16-byte key fills the 176-byte schedule (eleven round keys of 16 bytes)
  so that the first four words are the key and every later word \<open>i\<close> is the XOR of word
  \<open>i - 4\<close> with word \<open>i - 1\<close>, or, at every fourth word, with the transform of word
  \<open>i - 1\<close>: rotated left by 8 bits, each byte replaced by its entry in the 256-entry
  table \<open>SBOX\<close>, and XORed with the round constant of the word.
\<close>

theorem C6_key_schedule_recurrence:
  assumes "length key = 16" and "length (m_expanded_key e) = 176"
  shows "length (m_expanded_key (key_expansion h key e)) = 11 * 16
         \<and> take 16 (m_expanded_key (key_expansion h key e)) = key
         \<and> (\<forall>i<4. schedule_word h (m_expanded_key (key_expansion h key e)) i =
                     schedule_word h key i)
         \<and> (\<forall>i. 4 \<le> i \<and> i < 44 \<longrightarrow>
               schedule_recurrence h (m_expanded_key (key_expansion h key e)) i)
         \<and> length SBOX = 256"
proof -
  note ks = key_expansion_schedule [OF assms, of h]
  have "\<forall>i<4. schedule_word h (m_expanded_key (key_expansion h key e)) i =
      schedule_word h key i"
    using ks(2) by (blast intro: schedule_word_from_take)
  moreover from ks(1) have "length (m_expanded_key (key_expansion h key e)) = 11 * 16"
    by simp
  ultimately show ?thesis
    using ks(2,3) length_SBOX by blast
qed

theorem C6_witness:
  "length [0, 1, 2, 3, 4, 5, 6, 7, 8, 9, 10, 11, 12, 13, 14, 15 :: u8] = 16
   \<and> length (m_expanded_key \<lparr>m_state = replicate 16 0, m_expanded_key = replicate 176 0\<rparr>) = 176
   \<and> length (m_expanded_key aes_seq) = 176
   \<and> take 16 (m_expanded_key aes_seq) = [0, 1, 2, 3, 4, 5, 6, 7, 8, 9, 10, 11, 12, 13, 14, 15]
   \<and> map (schedule_word x86_64 (m_expanded_key aes_seq))
        [0, 1, 2, 3, 4, 5, 6, 7, 8, 9, 10, 11, 12, 13, 14, 15, 16, 17, 18, 19, 20, 21,
         22, 23, 24, 25, 26, 27, 28, 29, 30, 31, 32, 33, 34, 35, 36, 37, 38, 39, 40, 41,
         42, 43] =
       [50462976, 117835012, 185207048, 252579084, 2832596855, 2949905011,
        2765747067, 2883059319, 2792229653, 163443046, 2909012509, 112458858,
        3420391802, 3261265948, 1862728193, 1773471339, 531658371, 3721563807,
        3000267934, 3680596725, 4042297403, 757210788, 2683726394, 1150752975,
        2019367712, 1434387844, 3398004670, 2384361329, 178894905, 1607908797,
        2506084867, 457287026, 2293233814, 3615049003, 1109825320, 1499935322,
        227296860, 3673490295, 2564002911, 3249841669, 2158504996, 1516056403,
        3264133900, 54140169]"
proof -
  let ?key = "[0, 1, 2, 3, 4, 5, 6, 7, 8, 9, 10, 11, 12, 13, 14, 15 :: u8]"
  let ?e = "\<lparr>m_state = replicate 16 0, m_expanded_key = replicate 176 (0 :: u8)\<rparr>"
  let ?ek = "m_expanded_key aes_seq"
  have 1: "length ?key = 16" and 2: "length (m_expanded_key ?e) = 176"
    by simp_all
  note c6 = C6_key_schedule_recurrence [OF 1 2, of x86_64, folded aes_seq_eq]
  from c6 have len: "length ?ek = 11 * 16"
    and key: "take 16 ?ek = ?key"
    and first: "\<forall>i<4. schedule_word x86_64 ?ek i = schedule_word x86_64 ?key i"
    and later: "\<forall>i. 4 \<le> i \<and> i < 44 \<longrightarrow> schedule_recurrence x86_64 ?ek i"
    by blast+
  have "schedule_word x86_64 ?key 0 = 50462976"
    by (simp add: schedule_word_def load32_def bytes_u32_def x86_64_def)
  with first have w0: "schedule_word x86_64 ?ek 0 = 50462976"
    by simp
  have "schedule_word x86_64 ?key 1 = 117835012"
    by (simp add: schedule_word_def load32_def bytes_u32_def x86_64_def)
  with first have w1: "schedule_word x86_64 ?ek 1 = 117835012"
    by simp
  then have w1': "schedule_word x86_64 ?ek (Suc 0) = 117835012"
    by simp
  have "schedule_word x86_64 ?key 2 = 185207048"
    by (simp add: schedule_word_def load32_def bytes_u32_def x86_64_def)
  with first have w2: "schedule_word x86_64 ?ek 2 = 185207048"
    by simp
  have "schedule_word x86_64 ?key 3 = 252579084"
    by (simp add: schedule_word_def load32_def bytes_u32_def x86_64_def)
  with first have w3: "schedule_word x86_64 ?ek 3 = 252579084"
    by simp
  from later have "schedule_recurrence x86_64 ?ek 4"
    by simp
  then have w4: "schedule_word x86_64 ?ek 4 = 2832596855"
    by (simp add: schedule_eval w0 w3)
  from later have "schedule_recurrence x86_64 ?ek 5"
    by simp
  then have w5: "schedule_word x86_64 ?ek 5 = 2949905011"
    by (simp add: schedule_eval w1' w4)
  from later have "schedule_recurrence x86_64 ?ek 6"
    by simp
  then have w6: "schedule_word x86_64 ?ek 6 = 2765747067"
    by (simp add: schedule_eval w2 w5)
  from later have "schedule_recurrence x86_64 ?ek 7"
    by simp
  then have w7: "schedule_word x86_64 ?ek 7 = 2883059319"
    by (simp add: schedule_eval w3 w6)
  from later have "schedule_recurrence x86_64 ?ek 8"
    by simp
  then have w8: "schedule_word x86_64 ?ek 8 = 2792229653"
    by (simp add: schedule_eval w4 w7)
  from later have "schedule_recurrence x86_64 ?ek 9"
    by simp
  then have w9: "schedule_word x86_64 ?ek 9 = 163443046"
    by (simp add: schedule_eval w5 w8)
  from later have "schedule_recurrence x86_64 ?ek 10"
    by simp
  then have w10: "schedule_word x86_64 ?ek 10 = 2909012509"
    by (simp add: schedule_eval w6 w9)
  from later have "schedule_recurrence x86_64 ?ek 11"
    by simp
  then have w11: "schedule_word x86_64 ?ek 11 = 112458858"
    by (simp add: schedule_eval w7 w10)
  from later have "schedule_recurrence x86_64 ?ek 12"
    by simp
  then have w12: "schedule_word x86_64 ?ek 12 = 3420391802"
    by (simp add: schedule_eval w8 w11)
  from later have "schedule_recurrence x86_64 ?ek 13"
    by simp
  then have w13: "schedule_word x86_64 ?ek 13 = 3261265948"
    by (simp add: schedule_eval w9 w12)
  from later have "schedule_recurrence x86_64 ?ek 14"
    by simp
  then have w14: "schedule_word x86_64 ?ek 14 = 1862728193"
    by (simp add: schedule_eval w10 w13)
  from later have "schedule_recurrence x86_64 ?ek 15"
    by simp
  then have w15: "schedule_word x86_64 ?ek 15 = 1773471339"
    by (simp add: schedule_eval w11 w14)
  from later have "schedule_recurrence x86_64 ?ek 16"
    by simp
  then have w16: "schedule_word x86_64 ?ek 16 = 531658371"
    by (simp add: schedule_eval w12 w15)
  from later have "schedule_recurrence x86_64 ?ek 17"
    by simp
  then have w17: "schedule_word x86_64 ?ek 17 = 3721563807"
    by (simp add: schedule_eval w13 w16)
  from later have "schedule_recurrence x86_64 ?ek 18"
    by simp
  then have w18: "schedule_word x86_64 ?ek 18 = 3000267934"
    by (simp add: schedule_eval w14 w17)
  from later have "schedule_recurrence x86_64 ?ek 19"
    by simp
  then have w19: "schedule_word x86_64 ?ek 19 = 3680596725"
    by (simp add: schedule_eval w15 w18)
  from later have "schedule_recurrence x86_64 ?ek 20"
    by simp
  then have w20: "schedule_word x86_64 ?ek 20 = 4042297403"
    by (simp add: schedule_eval w16 w19)
  from later have "schedule_recurrence x86_64 ?ek 21"
    by simp
  then have w21: "schedule_word x86_64 ?ek 21 = 757210788"
    by (simp add: schedule_eval w17 w20)
  from later have "schedule_recurrence x86_64 ?ek 22"
    by simp
  then have w22: "schedule_word x86_64 ?ek 22 = 2683726394"
    by (simp add: schedule_eval w18 w21)
  from later have "schedule_recurrence x86_64 ?ek 23"
    by simp
  then have w23: "schedule_word x86_64 ?ek 23 = 1150752975"
    by (simp add: schedule_eval w19 w22)
  from later have "schedule_recurrence x86_64 ?ek 24"
    by simp
  then have w24: "schedule_word x86_64 ?ek 24 = 2019367712"
    by (simp add: schedule_eval w20 w23)
  from later have "schedule_recurrence x86_64 ?ek 25"
    by simp
  then have w25: "schedule_word x86_64 ?ek 25 = 1434387844"
    by (simp add: schedule_eval w21 w24)
  from later have "schedule_recurrence x86_64 ?ek 26"
    by simp
  then have w26: "schedule_word x86_64 ?ek 26 = 3398004670"
    by (simp add: schedule_eval w22 w25)
  from later have "schedule_recurrence x86_64 ?ek 27"
    by simp
  then have w27: "schedule_word x86_64 ?ek 27 = 2384361329"
    by (simp add: schedule_eval w23 w26)
  from later have "schedule_recurrence x86_64 ?ek 28"
    by simp
  then have w28: "schedule_word x86_64 ?ek 28 = 178894905"
    by (simp add: schedule_eval w24 w27)
  from later have "schedule_recurrence x86_64 ?ek 29"
    by simp
  then have w29: "schedule_word x86_64 ?ek 29 = 1607908797"
    by (simp add: schedule_eval w25 w28)
  from later have "schedule_recurrence x86_64 ?ek 30"
    by simp
  then have w30: "schedule_word x86_64 ?ek 30 = 2506084867"
    by (simp add: schedule_eval w26 w29)
  from later have "schedule_recurrence x86_64 ?ek 31"
    by simp
  then have w31: "schedule_word x86_64 ?ek 31 = 457287026"
    by (simp add: schedule_eval w27 w30)
  from later have "schedule_recurrence x86_64 ?ek 32"
    by simp
  then have w32: "schedule_word x86_64 ?ek 32 = 2293233814"
    by (simp add: schedule_eval w28 w31)
  from later have "schedule_recurrence x86_64 ?ek 33"
    by simp
  then have w33: "schedule_word x86_64 ?ek 33 = 3615049003"
    by (simp add: schedule_eval w29 w32)
  from later have "schedule_recurrence x86_64 ?ek 34"
    by simp
  then have w34: "schedule_word x86_64 ?ek 34 = 1109825320"
    by (simp add: schedule_eval w30 w33)
  from later have "schedule_recurrence x86_64 ?ek 35"
    by simp
  then have w35: "schedule_word x86_64 ?ek 35 = 1499935322"
    by (simp add: schedule_eval w31 w34)
  from later have "schedule_recurrence x86_64 ?ek 36"
    by simp
  then have w36: "schedule_word x86_64 ?ek 36 = 227296860"
    by (simp add: schedule_eval w32 w35)
  from later have "schedule_recurrence x86_64 ?ek 37"
    by simp
  then have w37: "schedule_word x86_64 ?ek 37 = 3673490295"
    by (simp add: schedule_eval w33 w36)
  from later have "schedule_recurrence x86_64 ?ek 38"
    by simp
  then have w38: "schedule_word x86_64 ?ek 38 = 2564002911"
    by (simp add: schedule_eval w34 w37)
  from later have "schedule_recurrence x86_64 ?ek 39"
    by simp
  then have w39: "schedule_word x86_64 ?ek 39 = 3249841669"
    by (simp add: schedule_eval w35 w38)
  from later have "schedule_recurrence x86_64 ?ek 40"
    by simp
  then have w40: "schedule_word x86_64 ?ek 40 = 2158504996"
    by (simp add: schedule_eval w36 w39)
  from later have "schedule_recurrence x86_64 ?ek 41"
    by simp
  then have w41: "schedule_word x86_64 ?ek 41 = 1516056403"
    by (simp add: schedule_eval w37 w40)
  from later have "schedule_recurrence x86_64 ?ek 42"
    by simp
  then have w42: "schedule_word x86_64 ?ek 42 = 3264133900"
    by (simp add: schedule_eval w38 w41)
  from later have "schedule_recurrence x86_64 ?ek 43"
    by simp
  then have w43: "schedule_word x86_64 ?ek 43 = 54140169"
    by (simp add: schedule_eval w39 w42)
  from len key show ?thesis
    by (simp add: w0 w1 w1' w2 w3 w4 w5 w6 w7 w8 w9 w10 w11 w12 w13 w14
      w15 w16 w17 w18 w19 w20 w21 w22 w23 w24 w25 w26 w27 w28 w29
      w30 w31 w32 w33 w34 w35 w36 w37 w38 w39 w40 w41 w42 w43)
qed

subsection \<open>C7\<close>

text \<open>
  C7: the code departs from the claim for the AES engine. \<^verbatim>\<open>next()\<close> and \<^verbatim>\<open>next128()\<close>
  each transform their own uninitialised local buffer, and the engine state does not
  enter the block. From one and the same engine (all-zero key and nonce), \<^verbatim>\<open>next()\<close>
  with a buffer that happens to hold \<^verbatim>\<open>00 01 ... 0f\<close> returns
  \<^verbatim>\<open>0x50C47D0CB310BC53\<close>, while the block of \<^verbatim>\<open>next128()\<close> with a buffer that happens
  to hold \<^verbatim>\<open>0xFF\<close> bytes has two equal halves, whose XOR is 0. (For ChaCha20 the output
  of \<^verbatim>\<open>next()\<close> is the fold of the \<^verbatim>\<open>next512()\<close> block from every state.)
\<close>

theorem C7_AESCTR_next_is_not_the_fold_of_next128:
  "fst (AESCTR_next x86_64 [0, 1, 2, 3, 4, 5, 6, 7, 8, 9, 10, 11, 12, 13, 14, 15] aes_zero)
     = 0x50C47D0CB310BC53
   \<and> fst (process_block x86_64 (replicate 16 0xFF) aes_zero) =
       [116, 117, 117, 117, 116, 117, 117, 117, 116, 117, 117, 117, 116, 117, 117, 117]
   \<and> fst (AESCTR_next128 x86_64 (replicate 16 0xFF) aes_zero) =
       [0x7575757475757574, 0x7575757475757574]
   \<and> le64 (take 8 (fst (process_block x86_64 (replicate 16 0xFF) aes_zero)))
       XOR le64 (drop 8 (fst (process_block x86_64 (replicate 16 0xFF) aes_zero))) = 0
   \<and> fst (AESCTR_next x86_64 [0, 1, 2, 3, 4, 5, 6, 7, 8, 9, 10, 11, 12, 13, 14, 15] aes_zero)
       \<noteq> le64 (take 8 (fst (process_block x86_64 (replicate 16 0xFF) aes_zero)))
           XOR le64 (drop 8 (fst (process_block x86_64 (replicate 16 0xFF) aes_zero)))"
proof -
  let ?b = "[0, 1, 2, 3, 4, 5, 6, 7, 8, 9, 10, 11, 12, 13, 14, 15 :: u8]"
  have blk: "fst (process_block x86_64 ?b aes_zero) =
      [1, 8, 4, 21, 144, 98, 200, 24, 82, 180, 20, 166, 156, 31, 12, 72]"
    by (simp add: fst_process_block length_m_expanded_key_aes_zero
        block_transform_aes_zero_count)
  have 1: "fst (AESCTR_next x86_64 ?b aes_zero) = 0x50C47D0CB310BC53"
    by (simp add: fst_AESCTR_next blk le64_def upt_0_8)
  have 2: "fst (process_block x86_64 (replicate 16 0xFF) aes_zero) =
      [116, 117, 117, 117, 116, 117, 117, 117, 116, 117, 117, 117, 116, 117, 117, 117]"
    by (simp add: fst_process_block length_m_expanded_key_aes_zero
        block_transform_aes_zero_ones)
  have 3: "fst (AESCTR_next128 x86_64 (replicate 16 0xFF) aes_zero) =
      [0x7575757475757574, 0x7575757475757574]"
    by (simp add: fst_AESCTR_next128 2 load64_def x86_64_sel le64_def upt_0_8)
  have 4: "le64 (take 8 (fst (process_block x86_64 (replicate 16 0xFF) aes_zero)))
       XOR le64 (drop 8 (fst (process_block x86_64 (replicate 16 0xFF) aes_zero))) = 0"
    by (simp add: 2 le64_def upt_0_8)
  from 1 2 3 4 show ?thesis
    by simp
qed

subsection \<open>C8\<close>

text \<open>
  C8. Whatever sequence of \<^verbatim>\<open>next()\<close> and \<^verbatim>\<open>next512()\<close> calls is made on a ChaCha20
  engine, every state word other than the counter words 12 and 13 keeps its value; so
  words 0 to 3, which both constructors set to the four constants, stay the constants.
\<close>

theorem C8_only_counter_words_change:
  assumes "length s = 16" and "length key = 8" and "length nonce = 2"
  shows "(\<forall>i<16. i \<noteq> 12 \<and> i \<noteq> 13 \<longrightarrow> chacha_run cs s ! i = s ! i)
         \<and> length (chacha_run cs s) = 16
         \<and> take 4 (chacha_run cs (fst (ChaCha20_from_rd rd))) = EXPAND_32_BYTE_K
         \<and> take 4 (chacha_run cs (ChaCha20_from_key key nonce)) = EXPAND_32_BYTE_K"
proof -
  have keep: "take 4 (chacha_run cs t) = take 4 t" if "length t = 16" for t
    using that by (intro take_4_from_nth) (simp_all add: chacha_run_length chacha_run_nth)
  have "take 4 (chacha_run cs (fst (ChaCha20_from_rd rd))) = EXPAND_32_BYTE_K"
    by (subst keep) (simp_all add: ChaCha20_from_rd_eq EXPAND_32_BYTE_K_def)
  moreover have "take 4 (chacha_run cs (ChaCha20_from_key key nonce)) = EXPAND_32_BYTE_K"
    using assms(2,3)
    by (subst keep) (simp_all add: ChaCha20_from_key_eq EXPAND_32_BYTE_K_def)
  ultimately show ?thesis
    using assms(1) by (simp add: chacha_run_length chacha_run_nth)
qed

theorem C8_witness:
  "length (ChaCha20_from_key (replicate 8 0) [0, 0]) = 16
   \<and> length (replicate 8 (0 :: u32)) = 8 \<and> length [0 :: u32, 0] = 2
   \<and> (7 :: nat) < 16
   \<and> chacha_run [Next, Next512] (ChaCha20_from_key (replicate 8 0) [0, 0]) ! 7 = 0
   \<and> take 4 (chacha_run [Next, Next512] (ChaCha20_from_key (replicate 8 0) [0, 0])) =
       [0x61707865, 0x3320646e, 0x79622d32, 0x6b206574]"
proof -
  have len: "length (ChaCha20_from_key (replicate 8 0) [0, 0]) = 16"
    by (simp add: ChaCha20_zero_key)
  have "length (replicate 8 (0 :: u32)) = 8" and "length [0 :: u32, 0] = 2"
    by simp_all
  from C8_only_counter_words_change [OF len this, of "[Next, Next512]"] len show ?thesis
    by (simp add: ChaCha20_zero_key EXPAND_32_BYTE_K_def)
qed

subsection \<open>C9\<close>

text \<open>
  C9. The engine built from a 16-byte key has a schedule of exactly 176 bytes whose first
  16 bytes are the key, and no sequence of \<^verbatim>\<open>process_block\<close>, \<^verbatim>\<open>next()\<close> and
  \<^verbatim>\<open>next128()\<close> calls changes the schedule of an engine.
\<close>

theorem C9_schedule_length_and_immutability:
  assumes "length key = 16" and "length ek0 = 176"
  shows "length (m_expanded_key (AESCTR_from_key h ek0 key nonce)) = 176
         \<and> take 16 (m_expanded_key (AESCTR_from_key h ek0 key nonce)) = key
         \<and> m_expanded_key (aes_run h cs (AESCTR_from_key h ek0 key nonce)) =
             m_expanded_key (AESCTR_from_key h ek0 key nonce)
         \<and> m_expanded_key (aes_run h cs e) = m_expanded_key e"
  using assms
  by (simp add: m_expanded_key_aes_run AESCTR_from_key_def Let_def key_expansion_schedule(1,2))

theorem C9_witness:
  "length (replicate 16 (0 :: u8)) = 16 \<and> length (replicate 176 (0 :: u8)) = 176
   \<and> length (m_expanded_key aes_zero) = 176
   \<and> take 16 (m_expanded_key aes_zero) = replicate 16 0
   \<and> take 32 (m_expanded_key
        (aes_run x86_64
          [Next_aes (replicate 16 0xFF), Next128_aes (replicate 16 0), Process_block (replicate 16 1)]
          aes_zero)) =
      [0, 0, 0, 0, 0, 0, 0, 0, 0, 0, 0, 0, 0, 0, 0, 0,
       98, 99, 99, 99, 98, 99, 99, 99, 98, 99, 99, 99, 98, 99, 99, 99]"
proof -
  have 1: "length (replicate 16 (0 :: u8)) = 16" and 2: "length (replicate 176 (0 :: u8)) = 176"
    by simp_all
  from C9_schedule_length_and_immutability [OF 1 2, where h = x86_64 and nonce = "replicate 16 0"
      and cs = "[Next_aes (replicate 16 0xFF), Next128_aes (replicate 16 0),
        Process_block (replicate 16 1)]", folded aes_zero_def]
  show ?thesis
    by (simp only: take_32_aes_zero 1 2)
qed

subsection \<open>C10\<close>

text \<open>
  C10. Whatever the entropy source produces, the engine built from it has state words 8 to
  11 equal to 0: the constructor writes the values it draws into words 4 to 7 and 14 to 15
  only, and the other words keep the zero of the base-class initialisation.
\<close>

theorem C10_entropy_seeded_upper_key_is_zero:
  "take 4 (drop 8 (fst (ChaCha20_from_rd rd))) = [0, 0, 0, 0]
   \<and> map ((!) (fst (ChaCha20_from_rd rd))) [4, 5, 6, 7, 14, 15] =
       map (entropy rd) [calls rd, calls rd + 1, calls rd + 2, calls rd + 3, calls rd + 4,
         calls rd + 5]"
  by (simp add: ChaCha20_from_rd_eq EXPAND_32_BYTE_K_def)

end
